theory Spec2Isabelle
  imports Main "HOL-Library.Char_ord" "HOL-Library.List_Lexorder" "HOL-Library.AList"
    "HOL-Library.Sublist"
begin

section \<open>Strings and characters of the runtime\<close>

text \<open>
  A JavaScript string is a sequence of UTF-16 code units. The model takes \<^typ>\<open>string\<close>,
  whose characters are the code units U+0000 to U+00FF; the character tests below are the
  ECMAScript ones restricted to that range. \<open>Array.prototype.sort\<close> without a comparator
  orders strings by code units, which is the lexicographic order of \<^typ>\<open>string\<close>.
\<close>

definition code_unit :: "char \<Rightarrow> nat" where
  "code_unit c = of_char c"

text \<open>\<open>\s\<close> and \<open>String.prototype.trim\<close>: TAB, LF, VT, FF, CR, SPACE and NBSP.\<close>

definition is_space :: "char \<Rightarrow> bool" where
  "is_space c = (code_unit c \<in> {9, 10, 11, 12, 13, 32, 160})"

definition is_digit :: "char \<Rightarrow> bool" where
  "is_digit c = (48 \<le> code_unit c \<and> code_unit c \<le> 57)"

text \<open>The word characters that \<open>\b\<close> looks at: \<open>[A-Za-z0-9_]\<close>.\<close>

definition is_word_char :: "char \<Rightarrow> bool" where
  "is_word_char c = (let n = code_unit c in
     (97 \<le> n \<and> n \<le> 122) \<or> (65 \<le> n \<and> n \<le> 90) \<or> (48 \<le> n \<and> n \<le> 57) \<or> n = 95)"

text \<open>
  \<open>String.prototype.toLowerCase\<close> and the canonicalization of the flag \<open>i\<close>, on the code units
  U+0000 to U+00FF: the letters A to Z and U+00C0 to U+00DE, U+00D7 apart, have a lower-case
  form, which is 32 higher. The runtime maps code points, not code units: beyond this range a
  pair of surrogates that stand next to each other is one code point, which \<open>toLowerCase\<close> can
  change although it changes neither surrogate alone. A string of the model has no surrogate,
  so a property that is to hold of every string of the runtime is stated here only of rules
  that do not call \<open>toLowerCase\<close>.
\<close>

definition to_lower :: "char \<Rightarrow> char" where
  "to_lower c = (let n = code_unit c in
     if (65 \<le> n \<and> n \<le> 90) \<or> (192 \<le> n \<and> n \<le> 222 \<and> n \<noteq> 215)
     then char_of (n + 32) else c)"

definition to_upper :: "char \<Rightarrow> char" where
  "to_upper c = (let n = code_unit c in
     if (97 \<le> n \<and> n \<le> 122) \<or> (224 \<le> n \<and> n \<le> 254 \<and> n \<noteq> 247)
     then char_of (n - 32) else c)"

definition toLowerCase :: "string \<Rightarrow> string" where
  "toLowerCase s = map to_lower s"

definition trim :: "string \<Rightarrow> string" where
  "trim s = rev (dropWhile is_space (rev (dropWhile is_space s)))"

text \<open>\<open>s.includes(sub)\<close>.\<close>

fun str_includes :: "string \<Rightarrow> string \<Rightarrow> bool" where
  "str_includes [] sub = (sub = [])"
| "str_includes (c # cs) sub = (prefix sub (c # cs) \<or> str_includes cs sub)"

text \<open>\<open>xs.join(sep)\<close> on an array of strings.\<close>

fun join :: "string \<Rightarrow> string list \<Rightarrow> string" where
  "join sep [] = []"
| "join sep [x] = x"
| "join sep (x # y # ys) = x @ sep @ join sep (y # ys)"

text \<open>How a template literal prints an array index: its decimal digits.\<close>

definition digit :: "nat \<Rightarrow> char" where
  "digit d = char_of (48 + d)"

fun index_text :: "nat \<Rightarrow> string" where
  "index_text i = (if i < 10 then [digit i] else index_text (i div 10) @ [digit (i mod 10)])"

section \<open>Regular expressions\<close>

text \<open>
  The rule table is written with regular-expression literals. They are kept as data and run
  by a backtracking matcher that follows the ECMAScript pattern semantics for the constructs
  the table uses: a position is the previous code unit (none at the start of the input) and
  the rest of the input; a matcher returns the end positions of its matches in the order in
  which backtracking tries them, so the head of the list is the match the runtime reports.
\<close>

datatype cls_item = Single char | Range char char | Space | Digit

datatype regex =
    Chr char
  | Cls bool "cls_item list"
  | Seq regex regex
  | Alt regex regex
  | Rep nat "nat option" regex
  | Bol
  | Eol
  | WordB
  | NegLook regex
  | Eps

text \<open>A regular-expression literal: the pattern and its flags.\<close>

datatype regexp = RegExp regex string

type_synonym pos = "char option \<times> string"

fun item_has :: "cls_item \<Rightarrow> char \<Rightarrow> bool" where
  "item_has (Single a) c = (c = a)"
| "item_has (Range a b) c = (code_unit a \<le> code_unit c \<and> code_unit c \<le> code_unit b)"
| "item_has Space c = is_space c"
| "item_has Digit c = is_digit c"

text \<open>
  With the \<open>i\<close> flag two code units match when their canonical (upper-case) forms agree;
  for a class, when some member has the canonical form of the input.
\<close>

definition in_class :: "bool \<Rightarrow> cls_item list \<Rightarrow> char \<Rightarrow> bool" where
  "in_class ic items c =
     (list_ex (\<lambda>i. item_has i c) items
      \<or> (ic \<and> list_ex (\<lambda>i. item_has i (to_upper c) \<or> item_has i (to_lower c)) items))"

definition chr_eq :: "bool \<Rightarrow> char \<Rightarrow> char \<Rightarrow> bool" where
  "chr_eq ic a c = (if ic then to_upper c = to_upper a else c = a)"

text \<open>
  Greedy repetition. Once the mandatory iterations are done, an iteration that consumes
  nothing is rejected, so the remaining input bounds the number of further iterations.
\<close>

fun iter_opt :: "(pos \<Rightarrow> pos list) \<Rightarrow> nat \<Rightarrow> pos \<Rightarrow> pos list" where
  "iter_opt m 0 p = [p]"
| "iter_opt m (Suc k) p =
     concat (map (\<lambda>q. if length (snd q) < length (snd p) then iter_opt m k q else []) (m p))
     @ [p]"

fun iter_min :: "(pos \<Rightarrow> pos list) \<Rightarrow> nat \<Rightarrow> (pos \<Rightarrow> pos list) \<Rightarrow> pos \<Rightarrow> pos list" where
  "iter_min m 0 k p = k p"
| "iter_min m (Suc n) k p = concat (map (iter_min m n k) (m p))"

fun rmatch :: "bool \<Rightarrow> regex \<Rightarrow> pos \<Rightarrow> pos list" where
  "rmatch ic (Chr a) p =
     (case snd p of [] \<Rightarrow> [] | c # cs \<Rightarrow> if chr_eq ic a c then [(Some c, cs)] else [])"
| "rmatch ic (Cls neg items) p =
     (case snd p of [] \<Rightarrow> []
      | c # cs \<Rightarrow> if in_class ic items c \<noteq> neg then [(Some c, cs)] else [])"
| "rmatch ic (Seq a b) p = concat (map (rmatch ic b) (rmatch ic a p))"
| "rmatch ic (Alt a b) p = rmatch ic a p @ rmatch ic b p"
| "rmatch ic (Rep lo hi a) p =
     iter_min (rmatch ic a) lo
       (\<lambda>q. iter_opt (rmatch ic a)
              (case hi of None \<Rightarrow> length (snd q) | Some h \<Rightarrow> h - lo) q) p"
| "rmatch ic Bol p = (if fst p = None then [p] else [])"
| "rmatch ic Eol p = (if snd p = [] then [p] else [])"
| "rmatch ic WordB p =
     (if (case fst p of None \<Rightarrow> False | Some c \<Rightarrow> is_word_char c)
         \<noteq> (case snd p of [] \<Rightarrow> False | c # _ \<Rightarrow> is_word_char c) then [p] else [])"
| "rmatch ic (NegLook a) p = (if rmatch ic a p = [] then [p] else [])"
| "rmatch ic Eps p = [p]"

definition seqs :: "regex list \<Rightarrow> regex" where
  "seqs rs = foldr Seq rs Eps"

definition alts :: "regex \<Rightarrow> regex list \<Rightarrow> regex" where
  "alts r rs = foldl Alt r rs"

definition lit :: "string \<Rightarrow> regex" where
  "lit s = seqs (map Chr s)"

abbreviation Star :: "regex \<Rightarrow> regex" where
  "Star \<equiv> Rep 0 None"

abbreviation Plus :: "regex \<Rightarrow> regex" where
  "Plus \<equiv> Rep 1 None"

abbreviation Opt :: "regex \<Rightarrow> regex" where
  "Opt \<equiv> Rep 0 (Some 1)"

text \<open>\<open>re.test(s)\<close> on a fresh literal: is there a match starting anywhere in \<open>s\<close>?\<close>

fun search :: "bool \<Rightarrow> regex \<Rightarrow> pos \<Rightarrow> bool" where
  "search ic r (prev, []) = (rmatch ic r (prev, []) \<noteq> [])"
| "search ic r (prev, c # cs) = (rmatch ic r (prev, c # cs) \<noteq> [] \<or> search ic r (Some c, cs))"

fun re_test :: "regexp \<Rightarrow> string \<Rightarrow> bool" where
  "re_test (RegExp r flags) s = search (CHR ''i'' \<in> set flags) r (None, s)"

text \<open>
  \<open>s.replace(re, '')\<close> with the \<open>g\<close> flag: the leftmost match is dropped and the scan goes
  on behind it; after an empty match the scan moves one code unit on.
\<close>

fun remove_from :: "bool \<Rightarrow> regex \<Rightarrow> pos \<Rightarrow> string" where
  "remove_from ic r (prev, []) = []"
| "remove_from ic r (prev, c # cs) =
     (case rmatch ic r (prev, c # cs) of
        [] \<Rightarrow> c # remove_from ic r (Some c, cs)
      | q # _ \<Rightarrow> if length (snd q) < length (c # cs) then remove_from ic r q
                 else c # remove_from ic r (Some c, cs))"

fun replace_empty :: "regexp \<Rightarrow> string \<Rightarrow> string" where
  "replace_empty (RegExp r flags) s = remove_from (CHR ''i'' \<in> set flags) r (None, s)"

section \<open>Types (\<open>types.ts\<close>)\<close>

record SanitizationRule =
  name :: string
  pattern :: "regexp option"
  transform :: "(string \<Rightarrow> string) option"
  validate :: "(string \<Rightarrow> bool) option"
  description :: "string option"

text \<open>\<open>rejectOnViolation\<close> is optional in the source and only tested for truth: absent is \<open>False\<close>.\<close>

record SanitizationConfig =
  enabled :: bool
  rules :: "string list"
  customRules :: "SanitizationRule list"
  strictMode :: bool
  logViolations :: bool
  rejectOnViolation :: bool

datatype SecurityViolationType =
  XSS | SQL_INJECTION | HTML_INJECTION | SCRIPT_INJECTION | PATH_TRAVERSAL | COMMAND_INJECTION

datatype severity_level = low | medium | high | critical

text \<open>
  The lookup tables of the source are object literals read with \<open>table[key] || default\<close>.
  Such a read also finds the members every object inherits from \<open>Object.prototype\<close>, all
  of them truthy, so for these keys the default is not taken and the value read is the
  inherited member, not an entry of the table.
\<close>

datatype 'a table_value = Entry 'a | Inherited string

definition object_prototype_members :: "string list" where
  "object_prototype_members =
     [''constructor'', ''__defineGetter__'', ''__defineSetter__'', ''hasOwnProperty'',
      ''__lookupGetter__'', ''__lookupSetter__'', ''isPrototypeOf'', ''propertyIsEnumerable'',
      ''toString'', ''valueOf'', ''__proto__'', ''toLocaleString'']"

text \<open>\<open>table[key] || dflt\<close> for a table whose entries are all truthy.\<close>

definition table_get :: "(string \<times> 'a) list \<Rightarrow> string \<Rightarrow> 'a \<Rightarrow> 'a table_value" where
  "table_get table k dflt =
     (case map_of table k of
        Some v \<Rightarrow> Entry v
      | None \<Rightarrow> if k \<in> set object_prototype_members then Inherited k else Entry dflt)"

record SecurityViolation =
  type :: "SecurityViolationType table_value"
  field :: string
  originalValue :: string
  sanitizedValue :: string
  rule :: string
  severity :: severity_level

text \<open>
  Numbers are modelled on the integers, with exact arithmetic, together with the three
  special values a division by zero produces.
\<close>

datatype jsnum = Fin int | PosInf | NegInf | NaN

text \<open>
  JSON-like values. An object is the list of its own enumerable properties in the order
  \<open>Object.entries\<close> lists them.
\<close>

datatype jsval =
    JUndefined
  | JNull
  | JBool bool
  | JNum jsnum
  | JStr string
  | JArr "jsval list"
  | JObj "(string \<times> jsval) list"

text \<open>Truthiness: \<open>if (v)\<close>, \<open>!v\<close>, \<open>v || w\<close>.\<close>

fun truthy :: "jsval \<Rightarrow> bool" where
  "truthy JUndefined = False"
| "truthy JNull = False"
| "truthy (JBool b) = b"
| "truthy (JNum n) = (n \<noteq> Fin 0 \<and> n \<noteq> NaN)"
| "truthy (JStr s) = (s \<noteq> [])"
| "truthy (JArr xs) = True"
| "truthy (JObj kvs) = True"

text \<open>
  \<open>obj[key] = v\<close> on an object built from \<open>{}\<close>: an existing property keeps its place, a new
  one is added at the end. The key \<open>__proto__\<close> reaches the accessor inherited from
  \<open>Object.prototype\<close> instead, and no own property is created.
\<close>

definition obj_assign :: "(string \<times> jsval) list \<Rightarrow> string \<Rightarrow> jsval \<Rightarrow> (string \<times> jsval) list" where
  "obj_assign obj k v = (if k = ''__proto__'' then obj else AList.update k v obj)"

record SanitizationResult =
  sanitized :: jsval
  violations :: "string list"
  appliedRules :: "string list"

section \<open>The rule table (\<open>sanitization-rules.ts\<close>)\<close>

definition html_re :: regexp where
  "html_re = RegExp (seqs [Chr CHR ''<'', Star (Cls True [Single CHR ''>'']), Chr CHR ''>'']) ''g''"

definition script_re :: regexp where
  "script_re = RegExp (seqs [lit ''<script'', WordB, Star (Cls True [Single CHR ''<'']),
       Star (seqs [NegLook (lit ''</script>''), Chr CHR ''<'', Star (Cls True [Single CHR ''<''])]),
       lit ''</script>'']) ''gi''"

definition sql_re :: regexp where
  "sql_re = RegExp (seqs [WordB,
       alts (lit ''ALTER'') [lit ''CREATE'', lit ''DELETE'', lit ''DROP'',
         Seq (lit ''EXEC'') (Opt (lit ''UTE'')), lit ''INSERT'', lit ''SELECT'', lit ''UNION'',
         lit ''UPDATE''],
       WordB]) ''gi''"

definition xss_re :: regexp where
  "xss_re = RegExp (alts (lit ''javascript:'') [lit ''vbscript:'', lit ''onload'', lit ''onerror'',
       lit ''onclick'', lit ''onmouseover'']) ''gi''"

definition email_re :: regexp where
  "email_re = RegExp (seqs [Bol, Plus (Cls True [Space, Single CHR ''@'']), Chr CHR ''@'',
       Plus (Cls True [Space, Single CHR ''@'']), Chr CHR ''.'',
       Plus (Cls True [Space, Single CHR ''@'']), Eol]) []"

definition phone_re :: regexp where
  "phone_re = RegExp (seqs [Bol, Opt (Chr CHR ''+''),
       Plus (Cls False [Digit, Space, Single CHR ''-'', Single CHR ''('', Single CHR '')'']),
       Eol]) []"

definition phone_format_re :: regexp where
  "phone_format_re =
     RegExp (Cls False [Space, Single CHR ''-'', Single CHR ''('', Single CHR '')'']) ''g''"

definition phone_digits_re :: regexp where
  "phone_digits_re = RegExp (seqs [Bol, Opt (Chr CHR ''+''), Plus (Cls False [Digit]), Eol]) []"

definition url_re :: regexp where
  "url_re = RegExp (seqs [Bol, lit ''http'', Opt (Chr CHR ''s''), lit ''://'', Opt (lit ''www.''),
       Rep 1 (Some 256) (Cls False [Single CHR ''-'', Range CHR ''a'' CHR ''z'',
         Range CHR ''A'' CHR ''Z'', Range CHR ''0'' CHR ''9'', Single CHR ''@'', Single CHR '':'',
         Single CHR ''%'', Single CHR ''.'', Single CHR ''_'', Single CHR ''+'', Single CHR ''~'',
         Single CHR ''#'', Single CHR ''='']),
       Chr CHR ''.'',
       Rep 1 (Some 6) (Cls False [Range CHR ''a'' CHR ''z'', Range CHR ''A'' CHR ''Z'',
         Range CHR ''0'' CHR ''9'', Single CHR ''('', Single CHR '')'']),
       WordB,
       Star (Cls False [Single CHR ''-'', Range CHR ''a'' CHR ''z'', Range CHR ''A'' CHR ''Z'',
         Range CHR ''0'' CHR ''9'', Single CHR ''('', Single CHR '')'', Single CHR ''@'',
         Single CHR '':'', Single CHR ''%'', Single CHR ''_'', Single CHR ''+'', Single CHR ''.'',
         Single CHR ''~'', Single CHR ''#'', Single CHR ''?'', Single CHR ''&'', Single CHR ''/'',
         Single CHR ''/'', Single CHR ''='']),
       Eol]) []"

definition path_traversal_re :: regexp where
  "path_traversal_re = RegExp (alts
       (Seq (lit ''..'') (Cls False [Single CHR ''/'', Single (CHR 0x5C)]))
       [lit ''..%2f'', lit ''..%5c'']) ''gi''"

definition command_injection_re :: regexp where
  "command_injection_re = RegExp (Cls False [Single CHR '';'', Single CHR ''&'', Single CHR ''|'',
       Single (CHR 0x60), Single CHR ''$'', Single CHR ''('', Single CHR '')'', Single CHR ''{'',
       Single CHR ''}'', Single CHR ''['', Single CHR '']'']) ''g''"

definition DEFAULT_SANITIZATION_RULES :: "SanitizationRule list" where
  "DEFAULT_SANITIZATION_RULES =
    [\<lparr>name = ''html'', pattern = Some html_re,
      transform = Some (\<lambda>v. replace_empty html_re v),
      validate = Some (\<lambda>v. \<not> re_test html_re v),
      description = Some ''Removes HTML tags from input''\<rparr>,
     \<lparr>name = ''script'', pattern = Some script_re,
      transform = Some (\<lambda>v. replace_empty script_re v),
      validate = Some (\<lambda>v. \<not> re_test script_re v),
      description = Some ''Removes script tags to prevent XSS''\<rparr>,
     \<lparr>name = ''sql'', pattern = Some sql_re,
      transform = None,
      validate = Some (\<lambda>v. \<not> re_test sql_re v),
      description = Some ''Detects potential SQL injection patterns''\<rparr>,
     \<lparr>name = ''xss'', pattern = Some xss_re,
      transform = Some (\<lambda>v. replace_empty xss_re v),
      validate = Some (\<lambda>v. \<not> re_test xss_re v),
      description = Some ''Removes common XSS attack vectors''\<rparr>,
     \<lparr>name = ''trim'', pattern = None,
      transform = Some (\<lambda>v. trim v),
      validate = Some (\<lambda>v. True),
      description = Some ''Removes leading and trailing whitespace''\<rparr>,
     \<lparr>name = ''email-normalize'', pattern = Some email_re,
      transform = Some (\<lambda>v. trim (toLowerCase v)),
      validate = Some (\<lambda>v. re_test email_re v),
      description = Some ''Normalizes email addresses to lowercase''\<rparr>,
     \<lparr>name = ''phone-normalize'', pattern = Some phone_re,
      transform = Some (\<lambda>v. replace_empty phone_format_re v),
      validate = Some (\<lambda>v. re_test phone_digits_re (replace_empty phone_format_re v)),
      description = Some ''Normalizes phone numbers by removing formatting''\<rparr>,
     \<lparr>name = ''url-validate'', pattern = Some url_re,
      transform = None,
      validate = Some (\<lambda>v. re_test url_re v),
      description = Some ''Validates URL format''\<rparr>,
     \<lparr>name = ''path-traversal'', pattern = Some path_traversal_re,
      transform = None,
      validate = Some (\<lambda>v. \<not> re_test path_traversal_re v),
      description = Some ''Detects path traversal attempts''\<rparr>,
     \<lparr>name = ''command-injection'', pattern = Some command_injection_re,
      transform = Some (\<lambda>v. replace_empty command_injection_re v),
      validate = Some (\<lambda>v. \<not> re_test command_injection_re v),
      description = Some ''Removes command injection characters''\<rparr>]"

definition typeMap :: "(string \<times> SecurityViolationType) list" where
  "typeMap =
     [(''html'', HTML_INJECTION), (''script'', SCRIPT_INJECTION), (''xss'', XSS),
      (''sql'', SQL_INJECTION), (''path-traversal'', PATH_TRAVERSAL),
      (''command-injection'', COMMAND_INJECTION)]"

definition getSecurityViolationType :: "string \<Rightarrow> SecurityViolationType table_value" where
  "getSecurityViolationType ruleName = table_get typeMap ruleName XSS"

definition severityMap :: "(SecurityViolationType \<times> severity_level) list" where
  "severityMap =
     [(XSS, high), (SQL_INJECTION, critical), (HTML_INJECTION, medium),
      (SCRIPT_INJECTION, critical), (PATH_TRAVERSAL, high), (COMMAND_INJECTION, critical)]"

text \<open>
  An inherited member used as a key is converted to its string form, which is no key of
  \<open>severityMap\<close> and no member name, so the default is taken.
\<close>

fun getViolationSeverity :: "SecurityViolationType table_value \<Rightarrow> severity_level" where
  "getViolationSeverity (Entry t) = (case map_of severityMap t of Some s \<Rightarrow> s | None \<Rightarrow> medium)"
| "getViolationSeverity (Inherited k) = medium"

text \<open>What a template literal or \<open>join\<close> prints for a violation type.\<close>

fun enum_text :: "SecurityViolationType \<Rightarrow> string" where
  "enum_text XSS = ''XSS''"
| "enum_text SQL_INJECTION = ''SQL_INJECTION''"
| "enum_text HTML_INJECTION = ''HTML_INJECTION''"
| "enum_text SCRIPT_INJECTION = ''SCRIPT_INJECTION''"
| "enum_text PATH_TRAVERSAL = ''PATH_TRAVERSAL''"
| "enum_text COMMAND_INJECTION = ''COMMAND_INJECTION''"

fun type_text :: "SecurityViolationType table_value \<Rightarrow> string" where
  "type_text (Entry t) = enum_text t"
| "type_text (Inherited k) =
     (if k = ''__proto__'' then ''[object Object]''
      else ''function '' @ (if k = ''constructor'' then ''Object'' else k)
           @ ''() { [native code] }'')"

section \<open>The sanitization engine (\<open>SanitizationEngine\<close>)\<close>

text \<open>
  \<open>rulesCache\<close> is a \<open>Map\<close> from rule names to rules, kept in insertion order;
  \<open>compiledRulesCache\<close> is a \<open>Map\<close> from cache keys to compiled rule lists. \<open>purify\<close> is the
  external HTML sanitizer the engine is built with, called with no allowed tags or attributes.
\<close>

record SanitizationEngine =
  config :: SanitizationConfig
  purify :: "string \<Rightarrow> string"
  rulesCache :: "(string \<times> SanitizationRule) list"
  compiledRulesCache :: "string \<rightharpoonup> SanitizationRule list"

definition initializeRules :: "SanitizationConfig \<Rightarrow> (string \<times> SanitizationRule) list" where
  "initializeRules cfg =
     fold (\<lambda>r cache. AList.update (name r) r cache) (customRules cfg)
       (fold (\<lambda>r cache. AList.update (name r) r cache) DEFAULT_SANITIZATION_RULES [])"

definition new_SanitizationEngine :: "(string \<Rightarrow> string) \<Rightarrow> SanitizationConfig \<Rightarrow> SanitizationEngine" where
  "new_SanitizationEngine pf cfg =
     \<lparr>config = cfg, purify = pf, rulesCache = initializeRules cfg,
      compiledRulesCache = Map.empty\<rparr>"

type_synonym acc = "SecurityViolation list \<times> string list"

text \<open>The body of the loop of \<open>sanitizeString\<close>, for one rule.\<close>

definition applyRule ::
  "(string \<Rightarrow> string) \<Rightarrow> string \<Rightarrow> SanitizationRule \<Rightarrow> string \<Rightarrow> acc \<Rightarrow> string \<times> acc" where
  "applyRule pf fieldPath r v a =
     (let originalValue = v;
          vs = (case validate r of
                  Some ok \<Rightarrow>
                    if \<not> ok v
                    then fst a @ [\<lparr>type = getSecurityViolationType (name r), field = fieldPath,
                                   originalValue = originalValue, sanitizedValue = v,
                                   rule = name r,
                                   severity = getViolationSeverity
                                     (getSecurityViolationType (name r))\<rparr>]
                    else fst a
                | None \<Rightarrow> fst a);
          v1 = (case transform r of Some f \<Rightarrow> f v | None \<Rightarrow> v);
          ap = (case transform r of
                  Some f \<Rightarrow> if v1 \<noteq> originalValue then snd a @ [name r] else snd a
                | None \<Rightarrow> snd a);
          v2 = (if name r = ''html'' \<and> CHR ''<'' \<in> set v1 then pf v1 else v1)
      in (v2, (vs, ap)))"

fun sanitizeString ::
  "(string \<Rightarrow> string) \<Rightarrow> string \<Rightarrow> SanitizationRule list \<Rightarrow> string \<Rightarrow> acc \<Rightarrow> string \<times> acc" where
  "sanitizeString pf v [] fieldPath a = (v, a)"
| "sanitizeString pf v (r # rs) fieldPath a =
     (let step = applyRule pf fieldPath r v a in sanitizeString pf (fst step) rs fieldPath (snd step))"

function (sequential) sanitizeValue ::
    "(string \<Rightarrow> string) \<Rightarrow> SanitizationRule list \<Rightarrow> jsval \<Rightarrow> string \<Rightarrow> acc \<Rightarrow> jsval \<times> acc"
  and sanitizeItems ::
    "(string \<Rightarrow> string) \<Rightarrow> SanitizationRule list \<Rightarrow> jsval list \<Rightarrow> nat \<Rightarrow> string \<Rightarrow> acc
       \<Rightarrow> jsval list \<times> acc"
  and sanitizeEntries ::
    "(string \<Rightarrow> string) \<Rightarrow> SanitizationRule list \<Rightarrow> (string \<times> jsval) list \<Rightarrow> string
       \<Rightarrow> (string \<times> jsval) list \<Rightarrow> acc \<Rightarrow> (string \<times> jsval) list \<times> acc"
where
  "sanitizeValue pf rs JNull fieldPath a = (JNull, a)"
| "sanitizeValue pf rs JUndefined fieldPath a = (JUndefined, a)"
| "sanitizeValue pf rs (JStr s) fieldPath a =
     (let r = sanitizeString pf s rs fieldPath a in (JStr (fst r), snd r))"
| "sanitizeValue pf rs (JArr xs) fieldPath a =
     (let r = sanitizeItems pf rs xs 0 fieldPath a in (JArr (fst r), snd r))"
| "sanitizeValue pf rs (JObj kvs) fieldPath a =
     (let r = sanitizeEntries pf rs kvs fieldPath [] a in (JObj (fst r), snd r))"
| "sanitizeValue pf rs (JBool b) fieldPath a = (JBool b, a)"
| "sanitizeValue pf rs (JNum n) fieldPath a = (JNum n, a)"
| "sanitizeItems pf rs [] i fieldPath a = ([], a)"
| "sanitizeItems pf rs (x # xs) i fieldPath a =
     (let r = sanitizeValue pf rs x (fieldPath @ ''['' @ index_text i @ '']'') a;
          r' = sanitizeItems pf rs xs (Suc i) fieldPath (snd r)
      in (fst r # fst r', snd r'))"
| "sanitizeEntries pf rs [] fieldPath sanitizedObj a = (sanitizedObj, a)"
| "sanitizeEntries pf rs ((k, v) # kvs) fieldPath sanitizedObj a =
     (let r = sanitizeValue pf rs v (if fieldPath \<noteq> [] then fieldPath @ ''.'' @ k else k) a
      in sanitizeEntries pf rs kvs fieldPath (obj_assign sanitizedObj k (fst r)) (snd r))"

  by pat_completeness auto

termination
  by (relation "measure (\<lambda>x. case x of
        Inl (pf, rs, v, p, a) \<Rightarrow> 2 * size v
      | Inr (Inl (pf, rs, xs, i, p, a)) \<Rightarrow> 2 * size_list size xs + 1
      | Inr (Inr (pf, rs, kvs, p, obj, a)) \<Rightarrow> 2 * size_list (size_prod (\<lambda>x. 0) size) kvs + 1)") auto

datatype js_error = Error string | TypeError string

text \<open>
  \<open>sanitize\<close> sorts the array it is given, reads and writes the compiled-rule cache, may warn
  on the console and may throw. The outcome records all four: the value returned or the error
  thrown, the engine afterwards, the content of the caller's array afterwards, and the
  violations passed to \<open>console.warn\<close>. With no \<open>rules\<close> argument the array is
  \<open>config.rules\<close> itself.
\<close>

record sanitize_outcome =
  returned :: "js_error + SanitizationResult"
  engine_after :: SanitizationEngine
  rules_after :: "string list"
  warned :: "SecurityViolation list option"

definition compile_rules :: "SanitizationEngine \<Rightarrow> string list \<Rightarrow> SanitizationRule list" where
  "compile_rules e rs = List.map_filter (map_of (rulesCache e)) rs"

definition sanitize :: "SanitizationEngine \<Rightarrow> jsval \<Rightarrow> string list option \<Rightarrow> sanitize_outcome" where
  "sanitize e data rules_arg =
     (let rules0 = (case rules_arg of None \<Rightarrow> rules (config e) | Some rs \<Rightarrow> rs);
          sorted_rules = sort rules0;
          cacheKey = join '','' sorted_rules;
          e1 = (case rules_arg of
                  None \<Rightarrow> e\<lparr>config := (config e)\<lparr>rules := sorted_rules\<rparr>\<rparr>
                | Some rs \<Rightarrow> e);
          compiledRules = (case compiledRulesCache e1 cacheKey of
                             Some c \<Rightarrow> c
                           | None \<Rightarrow> compile_rules e1 sorted_rules);
          e2 = (case compiledRulesCache e1 cacheKey of
                  Some c \<Rightarrow> e1
                | None \<Rightarrow> e1\<lparr>compiledRulesCache := (compiledRulesCache e1)(cacheKey \<mapsto> compiledRules)\<rparr>);
          res = sanitizeValue (purify e2) compiledRules data [] ([], []);
          vs = fst (snd res)
      in if strictMode (config e2) \<and> vs \<noteq> [] \<and> rejectOnViolation (config e2)
         then \<lparr>returned = Inl (Error (''Sanitization violations detected: ''
                                       @ join '', '' (map (\<lambda>v. type_text (type v)) vs))),
               engine_after = e2, rules_after = sorted_rules, warned = None\<rparr>
         else \<lparr>returned = Inr \<lparr>sanitized = fst res,
                                violations = map (\<lambda>v. field v @ '': '' @ type_text (type v)) vs,
                                appliedRules = snd (snd res)\<rparr>,
               engine_after = e2, rules_after = sorted_rules,
               warned = (if logViolations (config e2) \<and> vs \<noteq> [] then Some vs else None)\<rparr>)"

definition addCustomRule :: "SanitizationEngine \<Rightarrow> SanitizationRule \<Rightarrow> SanitizationEngine" where
  "addCustomRule e r =
     e\<lparr>rulesCache := AList.update (name r) r (rulesCache e), compiledRulesCache := Map.empty\<rparr>"

definition removeRule :: "SanitizationEngine \<Rightarrow> string \<Rightarrow> SanitizationEngine" where
  "removeRule e ruleName =
     e\<lparr>rulesCache := AList.delete ruleName (rulesCache e), compiledRulesCache := Map.empty\<rparr>"

definition getRules :: "SanitizationEngine \<Rightarrow> SanitizationRule list" where
  "getRules e = map snd (rulesCache e)"

definition validateConfig :: "SanitizationEngine \<Rightarrow> SanitizationConfig \<Rightarrow> js_error + bool" where
  "validateConfig e cfg =
     (let availableRules = map fst (rulesCache e);
          invalidRules = filter (\<lambda>r. r \<notin> set availableRules) (rules cfg)
      in if length invalidRules > 0
         then Inl (Error (''Invalid sanitization rules: '' @ join '', '' invalidRules))
         else Inr True)"

section \<open>The normalization engine (\<open>NormalizationEngine\<close>)\<close>

text \<open>
  \<open>format\<close> and \<open>errorFormat\<close> are strings at run time and are read by a \<open>switch\<close> with a
  default branch. The optional flags are only tested for truth: absent is \<open>False\<close>.
\<close>

record NormalizationConfig =
  norm_enabled :: bool
  format :: string
  includeMetadata :: bool
  errorFormat :: string
  includeDebugInfo :: bool
  compressResponses :: bool
  includeLinks :: bool

text \<open>\<open>links\<close> is an object that is passed on as it is.\<close>

record PaginationMeta =
  page :: jsnum
  limit :: jsnum
  total :: jsnum
  totalPages :: jsnum
  hasNext :: bool
  hasPrev :: bool
  links :: "jsval option"

record ResponseMetadata =
  md_timestamp :: string
  md_requestId :: string
  version :: string
  processingTime :: "int option"
  server :: "string option"
  nodeVersion :: "string option"

text \<open>A field that the minimal format leaves out is \<open>None\<close>.\<close>

record SuccessResponse =
  success :: bool
  data :: jsval
  metadata :: "ResponseMetadata option"
  pagination :: "PaginationMeta option"

text \<open>
  \<open>code\<close> and \<open>message\<close> are declared as strings but hold whatever the thrown value
  carried. In \<open>details\<close>, \<open>JUndefined\<close> also stands for a key that is not there.
\<close>

record error_body =
  code :: jsval
  message :: jsval
  details :: jsval
  err_timestamp :: string
  err_requestId :: string
  stack :: "string option"
  helpUrl :: "string option"
  possibleCauses :: "string list table_value option"

record ErrorResponse =
  err_success :: bool
  error :: error_body
  err_metadata :: ResponseMetadata

record RequestContext =
  requestId :: string
  timestamp :: int
  startTime :: int
  userAgent :: "string option"
  ip :: "string option"

text \<open>
  What a call reads from the process: \<open>process.env.NODE_ENV\<close>, \<open>process.version\<close>, and the
  clock. \<open>clock n\<close> is the time in milliseconds that the call gets when it reads the clock
  after \<open>n\<close> earlier readings; \<open>toISOString\<close> prints such a time.
\<close>

record runtime =
  NODE_ENV :: "string option"
  process_version :: string
  clock :: "nat \<Rightarrow> int"
  toISOString :: "int \<Rightarrow> string"

text \<open>Comparison, \<open>Math.max\<close>, \<open>Math.min\<close> and \<open>Math.ceil(a / b)\<close>.\<close>

fun js_lt :: "jsnum \<Rightarrow> jsnum \<Rightarrow> bool" where
  "js_lt (Fin a) (Fin b) = (a < b)"
| "js_lt NaN y = False"
| "js_lt x NaN = False"
| "js_lt x NegInf = False"
| "js_lt PosInf y = False"
| "js_lt NegInf y = True"
| "js_lt x PosInf = True"

definition js_max :: "jsnum \<Rightarrow> jsnum \<Rightarrow> jsnum" where
  "js_max a b = (if a = NaN \<or> b = NaN then NaN else if js_lt a b then b else a)"

definition js_min :: "jsnum \<Rightarrow> jsnum \<Rightarrow> jsnum" where
  "js_min a b = (if a = NaN \<or> b = NaN then NaN else if js_lt b a then b else a)"

fun js_ceil_div :: "jsnum \<Rightarrow> jsnum \<Rightarrow> jsnum" where
  "js_ceil_div (Fin a) (Fin b) =
     (if b \<noteq> 0 then Fin (- ((- a) div b))
      else if 0 < a then PosInf else if a < 0 then NegInf else NaN)"
| "js_ceil_div NaN y = NaN"
| "js_ceil_div x NaN = NaN"
| "js_ceil_div (Fin a) y = Fin 0"
| "js_ceil_div PosInf (Fin b) = (if b < 0 then NegInf else PosInf)"
| "js_ceil_div NegInf (Fin b) = (if b < 0 then PosInf else NegInf)"
| "js_ceil_div x y = NaN"

text \<open>
  \<open>createMetadata\<close> reads the clock for the processing time only when \<open>startTime\<close> is
  truthy, and then once more for the timestamp.
\<close>

definition clock_reads :: "RequestContext \<Rightarrow> nat" where
  "clock_reads context = (if startTime context \<noteq> 0 then 2 else 1)"

definition createMetadata :: "NormalizationConfig \<Rightarrow> runtime \<Rightarrow> RequestContext \<Rightarrow> ResponseMetadata" where
  "createMetadata cfg rt context =
     (let processingTime = (if startTime context \<noteq> 0 then Some (clock rt 0 - startTime context)
                            else None)
      in \<lparr>md_timestamp = toISOString rt (clock rt (clock_reads context - 1)),
          md_requestId = requestId context,
          version = ''v1'',
          processingTime = (if includeMetadata cfg \<and> processingTime \<noteq> None
                            then processingTime else None),
          server = None, nodeVersion = None\<rparr>)"

definition normalizePagination :: "NormalizationConfig \<Rightarrow> PaginationMeta \<Rightarrow> PaginationMeta" where
  "normalizePagination cfg p =
     \<lparr>page = js_max (Fin 1) (page p),
      limit = js_max (Fin 1) (js_min (Fin 100) (limit p)),
      total = js_max (Fin 0) (total p),
      totalPages = js_max (Fin 1) (js_ceil_div (total p) (limit p)),
      hasNext = js_lt (page p) (js_ceil_div (total p) (limit p)),
      hasPrev = js_lt (Fin 1) (page p),
      links = (if includeLinks cfg \<and> links p \<noteq> None then links p else None)\<rparr>"



definition sensitiveFields :: "string list" where
  "sensitiveFields =
     [''password'', ''token'', ''secret'', ''key'', ''authorization'', ''auth'', ''credential'',
      ''ssn'', ''social'', ''credit'', ''card'']"

definition isSensitiveField :: "string \<Rightarrow> bool" where
  "isSensitiveField fieldName =
     list_ex (\<lambda>field. str_includes (toLowerCase fieldName) field) sensitiveFields"

function (sequential) sanitizeErrorDetails :: "jsval \<Rightarrow> jsval"
  and sanitizeDetailItems :: "jsval list \<Rightarrow> jsval list"
  and sanitizeDetailEntries :: "(string \<times> jsval) list \<Rightarrow> (string \<times> jsval) list \<Rightarrow> (string \<times> jsval) list"
where
  "sanitizeErrorDetails (JStr s) = (if \<not> truthy (JStr s) then JUndefined else JStr s)"
| "sanitizeErrorDetails (JArr xs) =
     (if \<not> truthy (JArr xs) then JUndefined else JArr (sanitizeDetailItems xs))"
| "sanitizeErrorDetails (JObj kvs) =
     (if \<not> truthy (JObj kvs) then JUndefined else JObj (sanitizeDetailEntries kvs []))"
| "sanitizeErrorDetails d = (if \<not> truthy d then JUndefined else d)"
| "sanitizeDetailItems [] = []"
| "sanitizeDetailItems (x # xs) = sanitizeErrorDetails x # sanitizeDetailItems xs"
| "sanitizeDetailEntries [] sanitizedObj = sanitizedObj"
| "sanitizeDetailEntries ((k, v) # kvs) sanitizedObj =
     sanitizeDetailEntries kvs
       (if isSensitiveField k then obj_assign sanitizedObj k (JStr ''[REDACTED]'')
        else obj_assign sanitizedObj k (sanitizeErrorDetails v))"
  by pat_completeness auto

termination
  by (relation "measure (\<lambda>x. case x of
        Inl v \<Rightarrow> 2 * size v
      | Inr (Inl xs) \<Rightarrow> 2 * size_list size xs + 1
      | Inr (Inr (kvs, obj)) \<Rightarrow> 2 * size_list (size_prod (\<lambda>x. 0) size) kvs + 1)") auto

definition generateHelpUrl :: "jsval \<Rightarrow> js_error + string" where
  "generateHelpUrl errorCode =
     (case errorCode of
        JStr s \<Rightarrow> Inr (''https://docs.example.com/errors'' @ ''/'' @ toLowerCase s)
      | JUndefined \<Rightarrow> Inl (TypeError ''Cannot read properties of undefined'')
      | JNull \<Rightarrow> Inl (TypeError ''Cannot read properties of null'')
      | _ \<Rightarrow> Inl (TypeError ''errorCode.toLowerCase is not a function''))"

definition causesMap :: "(string \<times> string list) list" where
  "causesMap =
     [(''VALIDATION_ERROR'',
         [''Invalid input format'', ''Missing required fields'',
          ''Field length constraints violated'']),
      (''AUTHENTICATION_ERROR'',
         [''Invalid credentials'', ''Expired token'', ''Insufficient permissions'']),
      (''NOT_FOUND'',
         [''Resource does not exist'', ''Incorrect resource ID'', ''Resource has been deleted'']),
      (''INTERNAL_ERROR'',
         [''Server configuration issue'', ''Database connection problem'',
          ''Third-party service unavailable''])]"

definition getPossibleCauses :: "string \<Rightarrow> string list table_value" where
  "getPossibleCauses errorCode = table_get causesMap errorCode [''Unknown error cause'']"

text \<open>
  In the detailed format \<open>generateHelpUrl\<close> runs first; \<open>getPossibleCauses\<close> is reached only
  with a string.
\<close>

definition applyErrorFormatting ::
  "NormalizationConfig \<Rightarrow> runtime \<Rightarrow> ErrorResponse \<Rightarrow> js_error + ErrorResponse" where
  "applyErrorFormatting cfg rt response =
     (if errorFormat cfg = ''simple''
      then Inr \<lparr>err_success = False,
                error = \<lparr>code = code (error response), message = message (error response),
                          details = JUndefined,
                          err_timestamp = err_timestamp (error response),
                          err_requestId = err_requestId (error response),
                          stack = None, helpUrl = None, possibleCauses = None\<rparr>,
                err_metadata = err_metadata response\<rparr>
      else if errorFormat cfg = ''detailed''
      then (case generateHelpUrl (code (error response)) of
              Inl err \<Rightarrow> Inl err
            | Inr url \<Rightarrow>
                Inr (response\<lparr>
                  error := (error response)\<lparr>
                    helpUrl := Some url,
                    possibleCauses :=
                      Some (getPossibleCauses
                              (case code (error response) of JStr s \<Rightarrow> s | _ \<Rightarrow> []))\<rparr>,
                  err_metadata := (err_metadata response)\<lparr>
                    server := Some (case NODE_ENV rt of
                                      Some env \<Rightarrow> if env \<noteq> [] then env else ''development''
                                    | None \<Rightarrow> ''development''),
                    nodeVersion := Some (process_version rt)\<rparr>\<rparr>))
      else Inr response)"

text \<open>
  The value handed to \<open>normalizeError\<close>: an instance of \<open>Error\<close> with its name, message and
  stack, or any other value.
\<close>

datatype thrown = ErrorObject string string "string option" | Value jsval

text \<open>
  \<open>v?.k\<close> for the two keys the engine reads, \<open>message\<close> and \<open>code\<close>, which only an object's
  own properties can provide.
\<close>

fun member_of :: "jsval \<Rightarrow> string \<Rightarrow> jsval" where
  "member_of (JObj kvs) k = (case map_of kvs k of Some v \<Rightarrow> v | None \<Rightarrow> JUndefined)"
| "member_of v k = JUndefined"

definition normalizeError ::
  "NormalizationConfig \<Rightarrow> runtime \<Rightarrow> thrown \<Rightarrow> RequestContext \<Rightarrow> string option \<Rightarrow> jsval
     \<Rightarrow> js_error + ErrorResponse" where
  "normalizeError cfg rt err context code_arg details_arg =
     (let metadata = createMetadata cfg rt context;
          timestamp = toISOString rt (clock rt (clock_reads context));
          errorMessage =
            (case err of
               ErrorObject nm msg st \<Rightarrow> JStr msg
             | Value (JStr s) \<Rightarrow> JStr s
             | Value v \<Rightarrow> if truthy (member_of v ''message'') then member_of v ''message''
                           else JStr ''An unexpected error occurred'');
          fallbackCode =
            (case err of
               ErrorObject nm msg st \<Rightarrow> JStr (if nm \<noteq> [] then nm else ''INTERNAL_ERROR'')
             | Value (JStr s) \<Rightarrow> JStr ''VALIDATION_ERROR''
             | Value v \<Rightarrow> if truthy (member_of v ''code'') then member_of v ''code''
                           else JStr ''UNKNOWN_ERROR'');
          errorCode =
            (case code_arg of
               Some c \<Rightarrow> if c \<noteq> [] then JStr c else fallbackCode
             | None \<Rightarrow> fallbackCode);
          stack_text =
            (case err of
               ErrorObject nm msg st \<Rightarrow> if includeDebugInfo cfg then st else None
             | Value v \<Rightarrow> None)
      in applyErrorFormatting cfg rt
           \<lparr>err_success = False,
            error = \<lparr>code = errorCode, message = errorMessage,
                      details = sanitizeErrorDetails details_arg,
                      err_timestamp = timestamp, err_requestId = requestId context,
                      stack = (case stack_text of
                                 Some st \<Rightarrow> if st \<noteq> [] then Some st else None
                               | None \<Rightarrow> None),
                      helpUrl = None, possibleCauses = None\<rparr>,
            err_metadata = metadata\<rparr>)"

section \<open>Fixtures of the test suites\<close>

text \<open>
  The configuration and the stand-in for the external HTML sanitizer that
  \<open>sanitization-engine.spec.ts\<close> uses, and the configuration and request context of the
  normalization engine's tests, with a fixed process and clock.
\<close>

definition mockSanitizationConfig :: SanitizationConfig where
  "mockSanitizationConfig =
     \<lparr>enabled = True, rules = [''html'', ''script'', ''xss'', ''trim''], customRules = [],
      strictMode = False, logViolations = False, rejectOnViolation = False\<rparr>"

definition mockPurify :: "string \<Rightarrow> string" where
  "mockPurify v = replace_empty html_re v"

definition mockEngine :: SanitizationEngine where
  "mockEngine = new_SanitizationEngine mockPurify mockSanitizationConfig"

definition strictEngine :: SanitizationEngine where
  "strictEngine = new_SanitizationEngine mockPurify
     (mockSanitizationConfig\<lparr>strictMode := True, rejectOnViolation := True\<rparr>)"

definition mockNormalizationConfig :: NormalizationConfig where
  "mockNormalizationConfig =
     \<lparr>norm_enabled = True, format = ''standard'', includeMetadata = True,
      errorFormat = ''standard'', includeDebugInfo = False, compressResponses = False,
      includeLinks = False\<rparr>"

definition mockContext :: RequestContext where
  "mockContext =
     \<lparr>requestId = ''test-request-123'', timestamp = 1735689600000, startTime = 1735689600000,
      userAgent = Some ''test-agent'', ip = Some ''127.0.0.1''\<rparr>"

definition mockRuntime :: runtime where
  "mockRuntime =
     \<lparr>NODE_ENV = Some ''test'', process_version = ''v18.0.0'',
      clock = (\<lambda>n. 1735689600005), toISOString = (\<lambda>t. ''2025-01-01T00:00:00.005Z'')\<rparr>"

section \<open>Notions used to state the properties\<close>

text \<open>The compiled rule list a call of \<open>sanitize\<close> runs with: the cached one, if there is one.\<close>

definition rules_used :: "SanitizationEngine \<Rightarrow> string list option \<Rightarrow> SanitizationRule list" where
  "rules_used e rules_arg =
     (let sorted_rules = sort (case rules_arg of None \<Rightarrow> rules (config e) | Some rs \<Rightarrow> rs)
      in case compiledRulesCache e (join '','' sorted_rules) of
           Some c \<Rightarrow> c
         | None \<Rightarrow> compile_rules e sorted_rules)"

text \<open>The end of \<open>sanitize\<close>: the rejection in strict mode, or the result.\<close>

definition respond :: "SanitizationConfig \<Rightarrow> jsval \<times> acc \<Rightarrow> js_error + SanitizationResult" where
  "respond cfg res =
     (if strictMode cfg \<and> fst (snd res) \<noteq> [] \<and> rejectOnViolation cfg
      then Inl (Error (''Sanitization violations detected: ''
                        @ join '', '' (map (\<lambda>v. type_text (type v)) (fst (snd res)))))
      else Inr \<lparr>sanitized = fst res,
                violations = map (\<lambda>v. field v @ '': '' @ type_text (type v)) (fst (snd res)),
                appliedRules = snd (snd res)\<rparr>)"

text \<open>
  The names a call of \<open>sanitize\<close> asks for, and the lists of names in which every name is
  non-empty and has no comma. The cache key of a list is its sorted names joined by commas, so
  two lists of such names have the same key only when they have the same names in sorted order.
\<close>

definition names_of :: "SanitizationEngine \<Rightarrow> string list option \<Rightarrow> string list" where
  "names_of e rules_arg = (case rules_arg of None \<Rightarrow> rules (config e) | Some rs \<Rightarrow> rs)"

definition plain_names :: "string list \<Rightarrow> bool" where
  "plain_names ns = list_all (\<lambda>n. n \<noteq> [] \<and> CHR '','' \<notin> set n) ns"

text \<open>
  The engines that a program can hold: a new engine, and an engine after any sequence of calls
  of \<open>sanitize\<close>, \<open>addCustomRule\<close> and \<open>removeRule\<close> and of changes that the owner of the
  configuration object makes to it. \<open>served P\<close> holds of the engines all of whose calls of \<open>sanitize\<close>
  asked for a list of names for which \<open>P\<close> holds.
\<close>

inductive served :: "(string list \<Rightarrow> bool) \<Rightarrow> SanitizationEngine \<Rightarrow> bool"
  for P :: "string list \<Rightarrow> bool" where
  created: "served P (new_SanitizationEngine pf cfg)"
| called: "served P e \<Longrightarrow> P (names_of e a) \<Longrightarrow> served P (engine_after (sanitize e d a))"
| added: "served P e \<Longrightarrow> served P (addCustomRule e r)"
| removed: "served P e \<Longrightarrow> served P (removeRule e n)"
| configured: "served P e \<Longrightarrow> served P (e\<lparr>config := c\<rparr>)"


text \<open>The built-in rule \<open>script\<close>, and the strings of a value, in the order of the walk.\<close>

definition script_rule :: SanitizationRule where
  "script_rule = DEFAULT_SANITIZATION_RULES ! 1"

function (sequential)
  strings_of :: "jsval \<Rightarrow> string list"
  and strings_of_items :: "jsval list \<Rightarrow> string list"
  and strings_of_entries :: "(string \<times> jsval) list \<Rightarrow> string list"
where
  "strings_of (JStr s) = [s]"
| "strings_of (JArr xs) = strings_of_items xs"
| "strings_of (JObj kvs) = strings_of_entries kvs"
| "strings_of v = []"
| "strings_of_items [] = []"
| "strings_of_items (x # xs) = strings_of x @ strings_of_items xs"
| "strings_of_entries [] = []"
| "strings_of_entries ((k, v) # kvs) = strings_of v @ strings_of_entries kvs"
  by pat_completeness auto

termination
  by (relation "measure (\<lambda>x. case x of
                   Inl v \<Rightarrow> size v
                 | Inr (Inl xs) \<Rightarrow> size_list size xs
                 | Inr (Inr kvs) \<Rightarrow> size_list (size_prod (\<lambda>x. 0) size) kvs)") auto

definition script_hits :: "jsval \<Rightarrow> nat" where
  "script_hits d = length (filter (re_test script_re) (strings_of d))"

text \<open>A violation whose type and severity are the ones the lookup tables give for its rule.\<close>

definition derived_from_rule :: "SecurityViolation \<Rightarrow> bool" where
  "derived_from_rule v =
     (type v = getSecurityViolationType (rule v) \<and> severity v = getViolationSeverity (type v))"









section \<open>Properties\<close>

subsection \<open>Rule order\<close>

text \<open>
  C1. The claim is that \<open>sanitize\<close> applies the rules in the order of the caller's list, so
  that \<open>"  JOHN@EXAMPLE.COM  "\<close> with \<open>["trim","email-normalize"]\<close> records no violation. The
  code sorts the list before it resolves the rules: with either order \<open>email-normalize\<close> runs
  first, on the untrimmed value, and the email-shape violation is recorded; the two orders give
  the same result.
\<close>

theorem sanitize_order_lost:
  "returned (sanitize mockEngine (JStr ''  JOHN@EXAMPLE.COM  '') (Some [''trim'', ''email-normalize'']))
     = Inr \<lparr>sanitized = JStr ''john@example.com'', violations = ['': XSS''],
            appliedRules = [''email-normalize'']\<rparr>
   \<and> returned (sanitize mockEngine (JStr ''  JOHN@EXAMPLE.COM  '') (Some [''email-normalize'', ''trim'']))
     = returned (sanitize mockEngine (JStr ''  JOHN@EXAMPLE.COM  '') (Some [''trim'', ''email-normalize'']))"
  by code_simp

subsection \<open>Pagination\<close>

text \<open>
  C2. The claim is that \<open>{page: 0, limit: 500, total: 23}\<close> normalizes to
  \<open>hasNext = false\<close>, with \<open>totalPages\<close> and \<open>hasNext\<close> computed from the normalized fields.
  The code computes both from the fields as given: \<open>0 < ceil(23 / 500)\<close> holds, and the
  result has \<open>page = 1\<close>, \<open>totalPages = 1\<close> and \<open>hasNext = true\<close>.
\<close>

theorem normalizePagination_raw_fields:
  "normalizePagination cfg
     \<lparr>page = Fin 0, limit = Fin 500, total = Fin 23, totalPages = tp, hasNext = hn,
      hasPrev = hp, links = None\<rparr>
   = \<lparr>page = Fin 1, limit = Fin 100, total = Fin 23, totalPages = Fin 1, hasNext = True,
      hasPrev = False, links = None\<rparr>"
  by (simp add: normalizePagination_def js_max_def js_min_def)

subsection \<open>Error normalization\<close>

text \<open>
  Outside the detailed error format, and in any format when a non-empty \<open>code\<close> argument is
  given, \<open>normalizeError\<close> returns a response.
\<close>

lemma normalizeError_returns:
  "errorFormat cfg \<noteq> ''detailed'' \<Longrightarrow>
     \<exists>r. normalizeError cfg rt err context code_arg details_arg = Inr r"
  by (simp add: normalizeError_def applyErrorFormatting_def Let_def)

lemma normalizeError_returns_detailed:
  "code_arg = Some c \<Longrightarrow> c \<noteq> [] \<Longrightarrow>
     \<exists>r. normalizeError cfg rt err context code_arg details_arg = Inr r"
  by (simp add: normalizeError_def applyErrorFormatting_def generateHelpUrl_def Let_def)

text \<open>
  C5. The claim is that \<open>normalizeError\<close> never throws. With the detailed error format, the
  thrown value \<open>{code: 404, message: "Not found"}\<close> and no \<open>code\<close> argument, the error code is
  the number 404, and building the help link calls \<open>toLowerCase\<close> on it: the call throws a
  \<open>TypeError\<close>.
\<close>

theorem normalizeError_throws:
  "normalizeError (mockNormalizationConfig\<lparr>errorFormat := ''detailed''\<rparr>) mockRuntime
     (Value (JObj [(''code'', JNum (Fin 404)), (''message'', JStr ''Not found'')]))
     mockContext None JUndefined
   = Inl (TypeError ''errorCode.toLowerCase is not a function'')"
  by code_simp

text \<open>The redaction on the details \<open>{password: "x", nested: {token: "y", ok: "z"}}\<close>.\<close>

lemma sanitizeErrorDetails_redacts:
  "sanitizeErrorDetails
     (JObj [(''password'', JStr ''x''), (''nested'', JObj [(''token'', JStr ''y''), (''ok'', JStr ''z'')])])
   = JObj [(''password'', JStr ''[REDACTED]''),
           (''nested'', JObj [(''token'', JStr ''[REDACTED]''), (''ok'', JStr ''z'')])]"
  by code_simp

text \<open>
  C6. The claim is that values that are no containers pass through the redaction of the
  details unchanged. The guard for absent details is met again at every nested value, so
  \<open>0\<close> and \<open>false\<close> under keys that are not sensitive come out as \<open>undefined\<close>.
\<close>

theorem sanitizeErrorDetails_drops_falsy:
  "sanitizeErrorDetails (JObj [(''count'', JNum (Fin 0)), (''retry'', JBool False)])
   = JObj [(''count'', JUndefined), (''retry'', JUndefined)]"
  by code_simp

subsection \<open>Response formats\<close>



subsection \<open>What \<open>sanitize\<close> returns\<close>

lemma compile_rules_config [simp]: "compile_rules (e\<lparr>config := c\<rparr>) rs = compile_rules e rs"
  by (simp add: compile_rules_def)

lemma returned_sanitize:
  "returned (sanitize e d a)
     = respond (config e) (sanitizeValue (purify e) (rules_used e a) d [] ([], []))"
  by (cases a;
      cases "compiledRulesCache e
               (join '','' (sort (case a of None \<Rightarrow> rules (config e) | Some rs \<Rightarrow> rs)))")
     (simp_all add: sanitize_def rules_used_def respond_def Let_def)

subsection \<open>The cache of an engine in use\<close>

text \<open>
  The engine after a call: the default list of the configuration is sorted, and on a miss the
  list compiled for the sorted names is stored under their key. The registry stays as it is.
\<close>

lemma engine_after_sanitize:
  "engine_after (sanitize e d a)
     = (let e1 = (case a of
                    None \<Rightarrow> e\<lparr>config := (config e)\<lparr>rules := sort (rules (config e))\<rparr>\<rparr>
                  | Some rs \<Rightarrow> e);
            sorted_rules = sort (names_of e a)
        in case compiledRulesCache e (join '','' sorted_rules) of
             Some c \<Rightarrow> e1
           | None \<Rightarrow> e1\<lparr>compiledRulesCache :=
                         (compiledRulesCache e)(join '','' sorted_rules
                            \<mapsto> compile_rules e sorted_rules)\<rparr>)"
  by (cases a; cases "compiledRulesCache e (join '','' (sort (names_of e a)))")
     (simp_all add: sanitize_def names_of_def Let_def)

lemma rulesCache_sanitize [simp]: "rulesCache (engine_after (sanitize e d a)) = rulesCache e"
  by (simp add: engine_after_sanitize Let_def split: option.splits)

lemma purify_sanitize [simp]: "purify (engine_after (sanitize e d a)) = purify e"
  by (simp add: engine_after_sanitize Let_def split: option.splits)

lemma compile_rules_sanitize [simp]:
  "compile_rules (engine_after (sanitize e d a)) rs = compile_rules e rs"
  by (simp add: compile_rules_def)

lemma strictness_sanitize [simp]:
  "strictMode (config (engine_after (sanitize e d a))) = strictMode (config e)"
  "rejectOnViolation (config (engine_after (sanitize e d a))) = rejectOnViolation (config e)"
  by (simp_all add: engine_after_sanitize Let_def split: option.splits)

lemma cache_sanitize:
  "compiledRulesCache (engine_after (sanitize e d a)) key = Some c \<Longrightarrow>
     compiledRulesCache e key = Some c
     \<or> (key = join '','' (sort (names_of e a)) \<and> c = compile_rules e (sort (names_of e a)))"
  by (simp add: engine_after_sanitize Let_def split: option.splits if_splits)

text \<open>
  Every entry of the cache of an engine in use was compiled, from the registry as it is now, for
  the sorted names of a call.
\<close>

lemma served_cache:
  "served P e \<Longrightarrow> compiledRulesCache e key = Some c \<Longrightarrow>
     \<exists>ns. P ns \<and> key = join '','' (sort ns) \<and> c = compile_rules e (sort ns)"
proof (induction arbitrary: key c rule: served.induct)
  case (created pf cfg)
  then show ?case by (simp add: new_SanitizationEngine_def)
next
  case (called e a d)
  from cache_sanitize [OF called.prems]
  show ?case
  proof
    assume "compiledRulesCache e key = Some c"
    from called.IH [OF this] show ?thesis by simp
  next
    assume "key = join '','' (sort (names_of e a)) \<and> c = compile_rules e (sort (names_of e a))"
    with called.hyps(2) show ?thesis by auto
  qed
next
  case (added e r)
  then show ?case by (simp add: addCustomRule_def)
next
  case (removed e n)
  then show ?case by (simp add: removeRule_def)
next
  case (configured e c')
  from configured.prems have "compiledRulesCache e key = Some c" by simp
  from configured.IH [OF this] show ?case by simp
qed

text \<open>
  Joined by commas, two lists of non-empty names without a comma are equal only when the lists
  are equal: the first name is what stands before the first comma.
\<close>

lemma join_Cons: "join sep (x # xs) = (if xs = [] then x else x @ sep @ join sep xs)"
  by (cases xs) simp_all

lemma join_plain_nonempty: "plain_names xs \<Longrightarrow> xs \<noteq> [] \<Longrightarrow> join '','' xs \<noteq> []"
  by (cases xs) (auto simp: plain_names_def join_Cons)

lemma takeWhile_sep: "s \<notin> set x \<Longrightarrow> takeWhile (\<lambda>c. c \<noteq> s) (x @ s # r) = x"
  by (induction x) auto

lemma dropWhile_sep: "s \<notin> set x \<Longrightarrow> dropWhile (\<lambda>c. c \<noteq> s) (x @ s # r) = s # r"
  by (induction x) auto

lemma takeWhile_none: "s \<notin> set x \<Longrightarrow> takeWhile (\<lambda>c. c \<noteq> s) x = x"
  by (induction x) auto

lemma dropWhile_all: "s \<notin> set x \<Longrightarrow> dropWhile (\<lambda>c. c \<noteq> s) x = []"
  by (induction x) auto

lemma takeWhile_join:
  "CHR '','' \<notin> set x \<Longrightarrow> takeWhile (\<lambda>c. c \<noteq> CHR '','') (join '','' (x # xs)) = x"
  by (simp add: join_Cons takeWhile_sep takeWhile_none)

lemma dropWhile_join:
  "CHR '','' \<notin> set x \<Longrightarrow>
     dropWhile (\<lambda>c. c \<noteq> CHR '','') (join '','' (x # xs))
       = (if xs = [] then [] else '','' @ join '','' xs)"
  by (simp add: join_Cons dropWhile_sep dropWhile_all)

lemma join_plain_inj:
  "plain_names xs \<Longrightarrow> plain_names ys \<Longrightarrow> join '','' xs = join '','' ys \<Longrightarrow> xs = ys"
proof (induction xs arbitrary: ys)
  case Nil
  then show ?case
    using join_plain_nonempty [of ys] by auto
next
  case (Cons x xs)
  from Cons.prems have ys: "ys \<noteq> []"
    using join_plain_nonempty [of "x # xs"] by auto
  then obtain y ys' where y: "ys = y # ys'"
    by (cases ys) auto
  from Cons.prems y have nx: "CHR '','' \<notin> set x" and ny: "CHR '','' \<notin> set y"
    and px: "plain_names xs" and py: "plain_names ys'"
    by (simp_all add: plain_names_def)
  from Cons.prems(3) y
  have "takeWhile (\<lambda>c. c \<noteq> CHR '','') (join '','' (x # xs))
          = takeWhile (\<lambda>c. c \<noteq> CHR '','') (join '','' (y # ys'))"
    and d: "dropWhile (\<lambda>c. c \<noteq> CHR '','') (join '','' (x # xs))
          = dropWhile (\<lambda>c. c \<noteq> CHR '','') (join '','' (y # ys'))"
    by simp_all
  then have xy: "x = y"
    by (simp only: takeWhile_join [OF nx] takeWhile_join [OF ny])
  from d have d': "(if xs = [] then [] else '','' @ join '','' xs)
                     = (if ys' = [] then [] else '','' @ join '','' ys')"
    by (simp only: dropWhile_join [OF nx] dropWhile_join [OF ny])
  have "xs = ys'"
  proof (cases "xs = []")
    case True
    with d' show ?thesis by (auto split: if_splits)
  next
    case False
    with d' have "ys' \<noteq> []" and "join '','' xs = join '','' ys'"
      by (auto split: if_splits)
    with Cons.IH [OF px py] show ?thesis by simp
  qed
  with xy y show ?case by simp
qed

lemma plain_names_sort [simp]: "plain_names (sort ns) = plain_names ns"
  by (simp add: plain_names_def list_all_iff)

lemma plain_names_filter: "plain_names ns \<Longrightarrow> plain_names (filter Q ns)"
  by (simp add: plain_names_def list_all_iff)

text \<open>
  So a call with such names, on an engine that was only asked for such names, runs with the
  list compiled for its own sorted names, whether the cache has it or not.
\<close>

lemma rules_used_served:
  assumes "served plain_names e" and "plain_names (names_of e a)"
  shows "rules_used e a = compile_rules e (sort (names_of e a))"
proof (cases "compiledRulesCache e (join '','' (sort (names_of e a)))")
  case None
  then show ?thesis
    by (simp add: rules_used_def names_of_def Let_def)
next
  case (Some c)
  from served_cache [OF assms(1) Some] obtain ns
    where ns: "plain_names ns" "join '','' (sort (names_of e a)) = join '','' (sort ns)"
      "c = compile_rules e (sort ns)"
    by blast
  from ns(1,2) assms(2) have "sort (names_of e a) = sort ns"
    by (intro join_plain_inj) simp_all
  with ns(3) Some show ?thesis
    by (simp add: rules_used_def names_of_def Let_def)
qed

text \<open>
  The key of a single name without a comma is the name, and no other list of names has it: a
  call with this one name runs with its rule on every engine in use.
\<close>

lemma join_single:
  assumes "join '','' xs = n" and "n \<noteq> []" and "CHR '','' \<notin> set n"
  shows "xs = [n]"
proof (cases xs)
  case Nil
  with assms show ?thesis by simp
next
  case (Cons x xs')
  show ?thesis
  proof (cases xs')
    case Nil
    with Cons assms show ?thesis by simp
  next
    case (Cons y ys)
    with \<open>xs = x # xs'\<close> assms(1) have "CHR '','' \<in> set n"
      by auto
    with assms(3) show ?thesis by simp
  qed
qed

lemma sort_single: "sort xs = [n] \<Longrightarrow> xs = [n]"
  by (metis set_sort length_sort length_Cons list.size(3) length_Suc_conv
        length_0_conv list.set(1) list.simps(15) singletonD insertI1)

lemma rules_used_single:
  assumes "served P e" and "n \<noteq> []" and "CHR '','' \<notin> set n"
  shows "rules_used e (Some [n]) = compile_rules e [n]"
proof (cases "compiledRulesCache e n")
  case None
  then show ?thesis
    by (simp add: rules_used_def Let_def)
next
  case (Some c)
  from served_cache [OF assms(1) Some] obtain ns
    where ns: "n = join '','' (sort ns)" "c = compile_rules e (sort ns)"
    by blast
  from join_single [OF ns(1) [symmetric] assms(2,3)] have "sort ns = [n]" .
  with ns(2) Some show ?thesis
    by (simp add: rules_used_def Let_def)
qed

subsection \<open>Unknown rule names\<close>

lemma map_filter_known:
  assumes "\<And>x. P x \<longleftrightarrow> f x \<noteq> None"
  shows "List.map_filter f (filter P xs) = List.map_filter f xs"
proof -
  have "P = (\<lambda>x. f x \<noteq> None)"
    using assms by auto
  then show ?thesis
    by (simp add: List.map_filter_def)
qed

lemma compile_rules_drop_unknown:
  "compile_rules e (sort (filter (\<lambda>n. n \<in> fst ` set (rulesCache e)) rs)) = compile_rules e (sort rs)"
proof -
  have "sort (filter (\<lambda>n. n \<in> fst ` set (rulesCache e)) rs)
          = filter (\<lambda>n. n \<in> fst ` set (rulesCache e)) (sort rs)"
    by (simp add: filter_sort)
  moreover have "List.map_filter (map_of (rulesCache e))
                   (filter (\<lambda>n. n \<in> fst ` set (rulesCache e)) (sort rs))
                 = List.map_filter (map_of (rulesCache e)) (sort rs)"
    by (rule map_filter_known) (simp add: map_of_eq_None_iff)
  ultimately show ?thesis
    by (simp add: compile_rules_def)
qed

text \<open>
  C7. Unknown rule names are treated asymmetrically. The statement that \<open>sanitize\<close> drops every
  name that has no registered rule fails on an engine in use: after a call with the names
  \<open>html\<close> and \<open>trim\<close>, the cache holds their rules under the key \<open>html,trim\<close>, and a call with
  the single name \<open>html,trim\<close>, which \<open>validateConfig\<close> reports as not registered, runs these
  rules instead of none. The error of \<open>validateConfig\<close> is a plain \<open>Error\<close>.
\<close>

theorem unknown_rule_names_counterexample:
  "returned (sanitize (engine_after (sanitize mockEngine (JStr ''x'') (Some [''html'', ''trim''])))
              (JStr ''<b>x</b>'') (Some [''html,trim'']))
     = Inr \<lparr>sanitized = JStr ''x'', violations = ['': HTML_INJECTION''],
            appliedRules = [''html'']\<rparr>
   \<and> returned (sanitize (engine_after (sanitize mockEngine (JStr ''x'') (Some [''html'', ''trim''])))
              (JStr ''<b>x</b>'') (Some []))
     = Inr \<lparr>sanitized = JStr ''<b>x</b>'', violations = [], appliedRules = []\<rparr>
   \<and> validateConfig (engine_after (sanitize mockEngine (JStr ''x'') (Some [''html'', ''trim''])))
         (mockSanitizationConfig\<lparr>rules := [''html,trim'']\<rparr>)
     = Inl (Error ''Invalid sanitization rules: html,trim'')"
  by code_simp

text \<open>
  C7, as the code has it. On an engine whose calls of \<open>sanitize\<close> asked only for non-empty names
  without a comma, \<open>sanitize\<close> with a list of such names drops the names that have no
  registered rule: it returns what it returns for the list without them, be it a result or the
  rejection of strict mode, whatever the cache holds. \<open>validateConfig\<close> fails with an \<open>Error\<close>
  whose message lists every requested name that is not in the registry, in the order of the
  request, and returns \<open>true\<close> when all names are registered.
\<close>

theorem unknown_rule_names:
  "(served plain_names e \<and> plain_names rs \<longrightarrow>
      returned (sanitize e d (Some rs))
        = returned (sanitize e d (Some (filter (\<lambda>n. n \<in> fst ` set (rulesCache e)) rs))))
   \<and> validateConfig e cfg
       = (if \<forall>n \<in> set (rules cfg). n \<in> fst ` set (rulesCache e) then Inr True
          else Inl (Error (''Invalid sanitization rules: ''
                 @ join '', '' (filter (\<lambda>n. n \<notin> fst ` set (rulesCache e)) (rules cfg)))))"
proof (intro conjI impI)
  assume a: "served plain_names e \<and> plain_names rs"
  then have s: "served plain_names e" and p: "plain_names (names_of e (Some rs))"
    and q: "plain_names (names_of e (Some (filter (\<lambda>n. n \<in> fst ` set (rulesCache e)) rs)))"
    by (simp_all add: names_of_def plain_names_filter)
  have "rules_used e (Some rs)
          = rules_used e (Some (filter (\<lambda>n. n \<in> fst ` set (rulesCache e)) rs))"
    unfolding rules_used_served [OF s p] rules_used_served [OF s q]
    by (simp add: names_of_def compile_rules_drop_unknown)
  then show "returned (sanitize e d (Some rs))
        = returned (sanitize e d (Some (filter (\<lambda>n. n \<in> fst ` set (rulesCache e)) rs)))"
    by (simp add: returned_sanitize)
next
  show "validateConfig e cfg
       = (if \<forall>n \<in> set (rules cfg). n \<in> fst ` set (rulesCache e) then Inr True
          else Inl (Error (''Invalid sanitization rules: ''
                 @ join '', '' (filter (\<lambda>n. n \<notin> fst ` set (rulesCache e)) (rules cfg)))))"
    by (auto simp: validateConfig_def Let_def filter_empty_conv)
qed

text \<open>
  An engine after a call with the four names of its configuration, which the cache then holds:
  the unknown name \<open>nope\<close> makes the next call miss the cache, and changes nothing else.
\<close>

theorem unknown_rule_names_witness:
  "served plain_names (engine_after (sanitize mockEngine (JStr ''x'') None))
   \<and> plain_names [''html'', ''script'', ''xss'', ''trim'', ''nope'']
   \<and> returned (sanitize (engine_after (sanitize mockEngine (JStr ''x'') None))
        (JStr '' <b>x</b> '') (Some [''html'', ''script'', ''xss'', ''trim'', ''nope'']))
     = returned (sanitize (engine_after (sanitize mockEngine (JStr ''x'') None))
        (JStr '' <b>x</b> '') (Some [''html'', ''script'', ''xss'', ''trim'']))
   \<and> validateConfig (engine_after (sanitize mockEngine (JStr ''x'') None))
        (mockSanitizationConfig\<lparr>rules := [''html'', ''nope'', ''trim'', ''zz'']\<rparr>)
     = Inl (Error ''Invalid sanitization rules: nope, zz'')
   \<and> validateConfig (engine_after (sanitize mockEngine (JStr ''x'') None)) mockSanitizationConfig
     = Inr True"
proof -
  let ?e = "engine_after (sanitize mockEngine (JStr ''x'') None)"
  have "plain_names (names_of mockEngine None)"
    by code_simp
  then have s: "served plain_names ?e"
    unfolding mockEngine_def by (intro served.called served.created)
  have p: "plain_names [''html'', ''script'', ''xss'', ''trim'', ''nope'']"
    by code_simp
  have known: "filter (\<lambda>n. n \<in> fst ` set (rulesCache ?e))
                 [''html'', ''script'', ''xss'', ''trim'', ''nope'']
               = [''html'', ''script'', ''xss'', ''trim'']"
    by code_simp
  have bad: "\<not> (\<forall>n \<in> set [''html'', ''nope'', ''trim'', ''zz'']. n \<in> fst ` set (rulesCache ?e))"
    by code_simp
  have msg: "''Invalid sanitization rules: ''
               @ join '', '' (filter (\<lambda>n. n \<notin> fst ` set (rulesCache ?e))
                                [''html'', ''nope'', ''trim'', ''zz''])
             = ''Invalid sanitization rules: nope, zz''"
    by code_simp
  have good: "\<forall>n \<in> set (rules mockSanitizationConfig). n \<in> fst ` set (rulesCache ?e)"
    by code_simp
  from unknown_rule_names [of ?e "[''html'', ''script'', ''xss'', ''trim'', ''nope'']"
         "JStr '' <b>x</b> ''"
         "mockSanitizationConfig\<lparr>rules := [''html'', ''nope'', ''trim'', ''zz'']\<rparr>"]
       s p known bad msg
  have 1: "returned (sanitize ?e (JStr '' <b>x</b> '')
                      (Some [''html'', ''script'', ''xss'', ''trim'', ''nope'']))
             = returned (sanitize ?e (JStr '' <b>x</b> '')
                      (Some [''html'', ''script'', ''xss'', ''trim'']))"
    and 2: "validateConfig ?e
              (mockSanitizationConfig\<lparr>rules := [''html'', ''nope'', ''trim'', ''zz'']\<rparr>)
            = Inl (Error ''Invalid sanitization rules: nope, zz'')"
    by simp_all
  from unknown_rule_names [of ?e "[]" "JNull" mockSanitizationConfig] good
  have 3: "validateConfig ?e mockSanitizationConfig = Inr True"
    by simp
  from s p 1 2 3 show ?thesis by simp
qed

subsection \<open>The caller's array\<close>



subsection \<open>Violation type and severity\<close>

lemma applyRule_derived:
  "list_all derived_from_rule (fst a) \<Longrightarrow>
     list_all derived_from_rule (fst (snd (applyRule pf p r v a)))"
  by (simp add: applyRule_def Let_def derived_from_rule_def split: option.splits)

lemma sanitizeString_derived:
  "list_all derived_from_rule (fst a) \<Longrightarrow>
     list_all derived_from_rule (fst (snd (sanitizeString pf v rs p a)))"
proof (induction rs arbitrary: v a)
  case Nil
  then show ?case by simp
next
  case (Cons r rs)
  from Cons.prems have "list_all derived_from_rule (fst (snd (applyRule pf p r v a)))"
    by (rule applyRule_derived)
  then have "list_all derived_from_rule
               (fst (snd (sanitizeString pf (fst (applyRule pf p r v a)) rs p
                            (snd (applyRule pf p r v a)))))"
    by (rule Cons.IH)
  then show ?case
    by (simp add: Let_def)
qed

lemma sanitizeValue_derived:
  "list_all derived_from_rule (fst a) \<Longrightarrow>
     list_all derived_from_rule (fst (snd (sanitizeValue pf rs d p a)))"
  "list_all derived_from_rule (fst a) \<Longrightarrow>
     list_all derived_from_rule (fst (snd (sanitizeItems pf rs xs i p a)))"
  "list_all derived_from_rule (fst a) \<Longrightarrow>
     list_all derived_from_rule (fst (snd (sanitizeEntries pf rs kvs p obj a)))"
proof (induction pf rs d p a and pf rs xs i p a and pf rs kvs p obj a
       rule: sanitizeValue_sanitizeItems_sanitizeEntries.induct)
  case (3 pf rs s fieldPath a)
  then show ?case by (simp add: Let_def sanitizeString_derived)
next
  case (4 pf rs xs fieldPath a)
  then show ?case by (simp add: Let_def)
next
  case (5 pf rs kvs fieldPath a)
  then show ?case by (simp add: Let_def)
next
  case (9 pf rs x xs i fieldPath a)
  then show ?case by (simp add: Let_def)
next
  case (11 pf rs k v kvs fieldPath sanitizedObj a)
  then show ?case by (simp add: Let_def)
qed simp_all

text \<open>
  C3, as stated: a violation recorded for a rule name outside the type table has type
  \<open>XSS\<close> and severity \<open>medium\<close>. It fails for \<open>email-normalize\<close>, which is not in the table:
  the violation recorded on the value \<open>"x"\<close> has type \<open>XSS\<close> and severity \<open>high\<close>.
\<close>

theorem unmapped_rule_severity_counterexample:
  "map_of typeMap ''email-normalize'' = None
   \<and> fst (snd (sanitizeValue mockPurify (compile_rules mockEngine [''email-normalize''])
                 (JStr ''x'') [] ([], [])))
     = [\<lparr>type = Entry XSS, field = [], originalValue = ''x'', sanitizedValue = ''x'',
         rule = ''email-normalize'', severity = high\<rparr>]
   \<and> high \<noteq> medium"
  by code_simp

text \<open>
  C3, amended: for every rule name that is neither in the type table nor the name of a
  member inherited from \<open>Object.prototype\<close>, a violation recorded for that rule has type
  \<open>XSS\<close> and severity \<open>high\<close>, the severity the table gives for \<open>XSS\<close>.
\<close>

theorem unmapped_rule_severity:
  assumes "v \<in> set (fst (snd (sanitizeValue pf rs d p ([], []))))"
    and "map_of typeMap (rule v) = None"
    and "rule v \<notin> set object_prototype_members"
  shows "type v = Entry XSS \<and> severity v = high"
proof -
  have "list_all derived_from_rule (fst (snd (sanitizeValue pf rs d p ([], []))))"
    by (rule sanitizeValue_derived(1)) simp
  with assms(1) have "derived_from_rule v"
    by (simp add: list_all_iff)
  moreover have "getSecurityViolationType (rule v) = Entry XSS"
    using assms(2,3) by (simp add: getSecurityViolationType_def table_get_def)
  ultimately show ?thesis
    by (simp add: derived_from_rule_def severityMap_def)
qed

theorem unmapped_rule_severity_witness:
  "type (hd (fst (snd (sanitizeValue mockPurify (compile_rules mockEngine [''email-normalize''])
                         (JStr ''x'') [] ([], []))))) = Entry XSS
   \<and> severity (hd (fst (snd (sanitizeValue mockPurify (compile_rules mockEngine [''email-normalize''])
                         (JStr ''x'') [] ([], []))))) = high"
proof -
  have m: "hd (fst (snd (sanitizeValue mockPurify (compile_rules mockEngine [''email-normalize''])
                           (JStr ''x'') [] ([], []))))
           \<in> set (fst (snd (sanitizeValue mockPurify (compile_rules mockEngine [''email-normalize''])
                              (JStr ''x'') [] ([], []))))"
    by code_simp
  have n: "rule (hd (fst (snd (sanitizeValue mockPurify
                                 (compile_rules mockEngine [''email-normalize''])
                                 (JStr ''x'') [] ([], []))))) = ''email-normalize''"
    by code_simp
  have t: "map_of typeMap ''email-normalize'' = None"
    by code_simp
  have o: "''email-normalize'' \<notin> set object_prototype_members"
    by code_simp
  have t': "map_of typeMap (rule (hd (fst (snd (sanitizeValue mockPurify
                 (compile_rules mockEngine [''email-normalize'']) (JStr ''x'') [] ([], [])))))) = None"
    unfolding n by (rule t)
  have o': "rule (hd (fst (snd (sanitizeValue mockPurify
                 (compile_rules mockEngine [''email-normalize'']) (JStr ''x'') [] ([], [])))))
            \<notin> set object_prototype_members"
    unfolding n by (rule o)
  show ?thesis
    by (rule unmapped_rule_severity [OF m t' o'])
qed

subsection \<open>Strict mode\<close>

lemma map_of_fold_update_other:
  "n \<notin> name ` set rs \<Longrightarrow>
     map_of (fold (\<lambda>r cache. AList.update (name r) r cache) rs c) n = map_of c n"
  by (induction rs arbitrary: c) (simp_all add: update_conv)

lemma default_script_rule:
  "map_of (fold (\<lambda>r cache. AList.update (name r) r cache) DEFAULT_SANITIZATION_RULES []) ''script''
     = Some script_rule"
  by (simp add: script_rule_def DEFAULT_SANITIZATION_RULES_def update_conv)

lemma script_registered:
  assumes "''script'' \<notin> name ` set (customRules cfg)"
  shows "map_of (rulesCache (new_SanitizationEngine pf cfg)) ''script'' = Some script_rule"
  using assms
  by (simp add: new_SanitizationEngine_def initializeRules_def
        map_of_fold_update_other default_script_rule)

lemma script_rule_fields:
  "name script_rule = ''script''"
  "validate script_rule = Some (\<lambda>v. \<not> re_test script_re v)"
  "transform script_rule = Some (\<lambda>v. replace_empty script_re v)"
  by (simp_all add: script_rule_def DEFAULT_SANITIZATION_RULES_def)

lemma script_type: "getSecurityViolationType ''script'' = Entry SCRIPT_INJECTION"
  by (simp add: getSecurityViolationType_def table_get_def typeMap_def)

lemma script_type_text: "type_text (Entry SCRIPT_INJECTION) = ''SCRIPT_INJECTION''"
  by code_simp

lemma applyRule_script:
  "map type (fst (snd (applyRule pf p script_rule s a)))
     = map type (fst a) @ replicate (length (filter (re_test script_re) [s])) (Entry SCRIPT_INJECTION)"
  by (simp add: applyRule_def Let_def script_rule_fields script_type)

lemma sanitizeValue_script:
  "rs = [script_rule] \<Longrightarrow>
     map type (fst (snd (sanitizeValue pf rs d p a)))
       = map type (fst a)
         @ replicate (length (filter (re_test script_re) (strings_of d))) (Entry SCRIPT_INJECTION)"
  "rs = [script_rule] \<Longrightarrow>
     map type (fst (snd (sanitizeItems pf rs xs i p a)))
       = map type (fst a)
         @ replicate (length (filter (re_test script_re) (strings_of_items xs)))
             (Entry SCRIPT_INJECTION)"
  "rs = [script_rule] \<Longrightarrow>
     map type (fst (snd (sanitizeEntries pf rs kvs p obj a)))
       = map type (fst a)
         @ replicate (length (filter (re_test script_re) (strings_of_entries kvs)))
             (Entry SCRIPT_INJECTION)"
proof (induction pf rs d p a and pf rs xs i p a and pf rs kvs p obj a
       rule: sanitizeValue_sanitizeItems_sanitizeEntries.induct)
  case (3 pf rs s fieldPath a)
  then show ?case using applyRule_script [of pf fieldPath s a] by (simp add: Let_def)
next
  case (4 pf rs xs fieldPath a)
  then show ?case by (simp add: Let_def)
next
  case (5 pf rs kvs fieldPath a)
  then show ?case by (simp add: Let_def)
next
  case (9 pf rs x xs i fieldPath a)
  then show ?case by (simp add: Let_def replicate_add)
next
  case (11 pf rs k v kvs fieldPath sanitizedObj a)
  then show ?case by (simp add: Let_def replicate_add)
qed simp_all


subsection \<open>Where the pattern of the \<open>script\<close> rule matches\<close>

lemma not_lt_class: "in_class True [Single CHR ''<''] c = (c = CHR ''<'')"
proof -
  have "\<forall>c. in_class True [Single CHR ''<''] c = (c = CHR ''<'')"
    by code_simp
  then show ?thesis by blast
qed

lemma iter_opt_self: "p \<in> set (iter_opt m n p)"
  by (cases n) simp_all

lemma iter_opt_fuel: "n \<le> k \<Longrightarrow> set (iter_opt m n p) \<subseteq> set (iter_opt m k p)"
proof (induction n arbitrary: k p)
  case 0
  then show ?case by (simp add: iter_opt_self)
next
  case (Suc n)
  then obtain k' where k: "k = Suc k'" and le: "n \<le> k'"
    by (cases k) auto
  from Suc.IH [OF le] show ?case
    unfolding k by fastforce
qed

lemma star_step:
  assumes "q \<in> set (rmatch ic a p)" and "length (snd q) < length (snd p)"
    and "r \<in> set (rmatch ic (Star a) q)"
  shows "r \<in> set (rmatch ic (Star a) p)"
proof -
  from assms(2) obtain k where k: "length (snd p) = Suc k" and le: "length (snd q) \<le> k"
    by (cases "length (snd p)") auto
  from assms(3) iter_opt_fuel [OF le, of "rmatch ic a" q]
  have "r \<in> set (iter_opt (rmatch ic a) k q)"
    by auto
  with assms(1,2) show ?thesis
    by (auto simp: k)
qed

lemma star_self: "p \<in> set (rmatch ic (Star a) p)"
  by (simp add: iter_opt_self)

lemma seq_single: "rmatch ic a p = [q] \<Longrightarrow> rmatch ic (Seq a b) p = rmatch ic b q"
  by simp

lemma seq_match:
  "q \<in> set (rmatch ic a p) \<Longrightarrow> rmatch ic b q \<noteq> [] \<Longrightarrow> rmatch ic (Seq a b) p \<noteq> []"
  by auto


lemma class_run:
  "CHR ''<'' \<notin> set w \<Longrightarrow>
     \<exists>prev'. (prev', rest) \<in> set (rmatch True (Star (Cls True [Single CHR ''<''])) (prev, w @ rest))"
proof (induction w arbitrary: prev)
  case Nil
  show ?case
    using star_self [of "(prev, rest)"] by auto
next
  case (Cons c w)
  then have c: "c \<noteq> CHR ''<''" and w: "CHR ''<'' \<notin> set w"
    by auto
  from Cons.IH [OF w, of "Some c"] obtain prev'
    where r: "(prev', rest) \<in> set (rmatch True (Star (Cls True [Single CHR ''<''])) (Some c, w @ rest))"
    by blast
  have q: "(Some c, w @ rest) \<in> set (rmatch True (Cls True [Single CHR ''<'']) (prev, (c # w) @ rest))"
    using c by (simp add: not_lt_class)
  have "(prev', rest) \<in> set (rmatch True (Star (Cls True [Single CHR ''<''])) (prev, (c # w) @ rest))"
    by (rule star_step [OF q _ r]) simp
  then show ?case by blast
qed

lemma closing_tag: "rmatch True (lit ''</script>'') (prev, ''</script>'' @ post) \<noteq> []"
  by (simp add: lit_def seqs_def chr_eq_def)

lemma tag_run:
  assumes "u = [] \<or> hd u = CHR ''<''"
  shows "\<exists>r \<in> set (rmatch True
                    (Star (seqs [NegLook (lit ''</script>''), Chr CHR ''<'',
                                 Star (Cls True [Single CHR ''<''])]))
                    (prev, u @ ''</script>'' @ post)).
           rmatch True (lit ''</script>'') r \<noteq> []"
  using assms
proof (induction u arbitrary: prev rule: length_induct)
  case (1 u)
  let ?G = "seqs [NegLook (lit ''</script>''), Chr CHR ''<'', Star (Cls True [Single CHR ''<''])]"
  let ?p = "(prev, u @ ''</script>'' @ post)"
  show ?case
  proof (cases "rmatch True (lit ''</script>'') ?p = []")
    case False
    with star_self [of ?p True ?G] show ?thesis
      by blast
  next
    case True
    with closing_tag [of prev post] have "u \<noteq> []"
      by auto
    with 1(2) obtain u' where u: "u = CHR ''<'' # u'"
      by (cases u) auto
    let ?w = "takeWhile (\<lambda>c. c \<noteq> CHR ''<'') u'"
    let ?v = "dropWhile (\<lambda>c. c \<noteq> CHR ''<'') u'"
    have w: "CHR ''<'' \<notin> set ?w"
      by (auto dest: set_takeWhileD)
    have v: "?v = [] \<or> hd ?v = CHR ''<''"
      using hd_dropWhile [of "\<lambda>c. c \<noteq> CHR ''<''" u'] by auto
    have len: "length ?v < length u"
      unfolding u using length_dropWhile_le [of "\<lambda>c. c \<noteq> CHR ''<''" u'] by simp
    from class_run [OF w, of "?v @ ''</script>'' @ post" "Some CHR ''<''"] obtain prev'
      where c: "(prev', ?v @ ''</script>'' @ post)
                  \<in> set (rmatch True (Star (Cls True [Single CHR ''<'']))
                           (Some CHR ''<'', ?w @ ?v @ ''</script>'' @ post))"
      by blast
    have split: "?w @ ?v @ ''</script>'' @ post = u' @ ''</script>'' @ post"
      by simp
    have q: "(prev', ?v @ ''</script>'' @ post) \<in> set (rmatch True ?G ?p)"
      using c True unfolding split u
      by (simp add: seqs_def chr_eq_def del: rmatch.simps(5))
    from 1(1) [rule_format, OF len v, of prev'] obtain r
      where r: "r \<in> set (rmatch True (Star ?G) (prev', ?v @ ''</script>'' @ post))"
        and m: "rmatch True (lit ''</script>'') r \<noteq> []"
      by blast
    have "r \<in> set (rmatch True (Star ?G) ?p)"
      by (rule star_step [OF q _ r]) (simp add: u length_dropWhile_le less_Suc_eq_le)
    with m show ?thesis by blast
  qed
qed

lemma element_rest:
  "rmatch True
     (Seq (Star (Cls True [Single CHR ''<'']))
        (Seq (Star (seqs [NegLook (lit ''</script>''), Chr CHR ''<'',
                          Star (Cls True [Single CHR ''<''])]))
           (Seq (lit ''</script>'') Eps)))
     (prev, u @ ''</script>'' @ post) \<noteq> []"
proof -
  let ?w = "takeWhile (\<lambda>c. c \<noteq> CHR ''<'') u"
  let ?v = "dropWhile (\<lambda>c. c \<noteq> CHR ''<'') u"
  let ?G = "seqs [NegLook (lit ''</script>''), Chr CHR ''<'', Star (Cls True [Single CHR ''<''])]"
  have w: "CHR ''<'' \<notin> set ?w"
    by (auto dest: set_takeWhileD)
  have v: "?v = [] \<or> hd ?v = CHR ''<''"
    using hd_dropWhile [of "\<lambda>c. c \<noteq> CHR ''<''" u] by auto
  from class_run [OF w, of "?v @ ''</script>'' @ post" prev] obtain prev'
    where c: "(prev', ?v @ ''</script>'' @ post)
                \<in> set (rmatch True (Star (Cls True [Single CHR ''<'']))
                         (prev, ?w @ ?v @ ''</script>'' @ post))"
    by blast
  have split: "?w @ ?v @ ''</script>'' @ post = u @ ''</script>'' @ post"
    by simp
  from tag_run [OF v, of prev' post] obtain r
    where r: "r \<in> set (rmatch True (Star ?G) (prev', ?v @ ''</script>'' @ post))"
      and m: "rmatch True (lit ''</script>'') r \<noteq> []"
    by blast
  from m have "rmatch True (Seq (lit ''</script>'') Eps) r \<noteq> []"
    by (cases "rmatch True (lit ''</script>'') r") simp_all
  from seq_match [OF r this]
  have "rmatch True (Seq (Star ?G) (Seq (lit ''</script>'') Eps))
          (prev', ?v @ ''</script>'' @ post) \<noteq> []" .
  from seq_match [OF c this] show ?thesis
    unfolding split .
qed

lemma search_append:
  "(\<And>prev. rmatch ic r (prev, s) \<noteq> []) \<Longrightarrow> search ic r (p0, pre @ s)"
proof (induction pre arbitrary: p0)
  case Nil
  then show ?case by (cases s) simp_all
next
  case (Cons c pre)
  then show ?case by simp
qed

text \<open>
  The pattern of the \<open>script\<close> rule matches in every string that has an opening tag \<open><script>\<close>
  and, somewhere behind it, a closing tag \<open></script>\<close>.
\<close>

lemma script_element_matches:
  "re_test script_re (pre @ ''<script>'' @ body @ ''</script>'' @ post)"
proof -
  let ?rest = "Seq (Star (Cls True [Single CHR ''<'']))
                 (Seq (Star (seqs [NegLook (lit ''</script>''), Chr CHR ''<'',
                                   Star (Cls True [Single CHR ''<''])]))
                    (Seq (lit ''</script>'') Eps))"
  have w: "is_word_char CHR ''t''" "\<not> is_word_char CHR ''>''"
    by code_simp+
  have m: "rmatch True (Seq (lit ''<script'') (Seq WordB ?rest))
             (prev, ''<script>'' @ body @ ''</script>'' @ post) \<noteq> []" for prev
  proof -
    have 1: "rmatch True (lit ''<script'') (prev, ''<script>'' @ body @ ''</script>'' @ post)
               = [(Some CHR ''t'', (CHR ''>'' # body) @ ''</script>'' @ post)]"
      by (simp add: lit_def seqs_def chr_eq_def)
    have 2: "rmatch True WordB (Some CHR ''t'', (CHR ''>'' # body) @ ''</script>'' @ post)
               = [(Some CHR ''t'', (CHR ''>'' # body) @ ''</script>'' @ post)]"
      using w by simp
    show ?thesis
      unfolding seq_single [OF 1] seq_single [OF 2]
      by (rule element_rest)
  qed
  have "search True (Seq (lit ''<script'') (Seq WordB ?rest))
          (None, pre @ ''<script>'' @ body @ ''</script>'' @ post)"
    by (rule search_append) (rule m)
  moreover have "seqs [lit ''<script'', WordB, Star (Cls True [Single CHR ''<'']),
             Star (seqs [NegLook (lit ''</script>''), Chr CHR ''<'',
                         Star (Cls True [Single CHR ''<''])]),
             lit ''</script>''] = Seq (lit ''<script'') (Seq WordB ?rest)"
    by (simp add: seqs_def)
  ultimately show ?thesis
    by (simp add: script_re_def)
qed

text \<open>
  C4, as stated: every input containing \<open><script>\<close>, sanitized with the rules \<open>["script"]\<close>,
  is rejected in strict mode with rejection on, and reported with a non-empty violations list
  otherwise. It fails for the input \<open>"<script>"\<close>, which has no closing tag: the pattern of the
  \<open>script\<close> rule does not match, no violation is recorded, and \<open>sanitize\<close> returns the input
  with an empty violations list in both configurations.
\<close>

theorem script_tag_counterexample:
  "returned (sanitize strictEngine (JStr ''<script>'') (Some [''script'']))
     = Inr \<lparr>sanitized = JStr ''<script>'', violations = [], appliedRules = []\<rparr>
   \<and> returned (sanitize mockEngine (JStr ''<script>'') (Some [''script'']))
     = Inr \<lparr>sanitized = JStr ''<script>'', violations = [], appliedRules = []\<rparr>"
  by code_simp

text \<open>
  C4, as the code has it. Take any input, a string or a finite tree of objects and arrays,
  in which the pattern of the \<open>script\<close> rule matches in at least one string, as it does in
  every string that has a \<open><script>\<close> and a later \<open></script>\<close> (\<open>script_element_matches\<close>), and
  sanitize it with the rules \<open>["script"]\<close> on any engine in use, whatever its earlier calls
  asked for, whose \<open>script\<close> rule is the built-in one. With \<open>strictMode\<close> and
  \<open>rejectOnViolation\<close> on, \<open>sanitize\<close> throws an error whose message lists the types of all
  violations joined by commas: \<open>SCRIPT_INJECTION\<close> once for each string in which the pattern
  matches. With \<open>rejectOnViolation\<close> off it returns the sanitized value together with a
  violations list that is not empty and has one entry, ending in \<open>SCRIPT_INJECTION\<close>, for each
  such string.
\<close>

theorem script_element_strict_mode:
  assumes "served P e"
    and "map_of (rulesCache e) ''script'' = Some script_rule"
    and "list_ex (re_test script_re) (strings_of d)"
  shows "(strictMode (config e) \<and> rejectOnViolation (config e) \<longrightarrow>
            returned (sanitize e d (Some [''script'']))
              = Inl (Error (''Sanitization violations detected: ''
                      @ join '', '' (replicate (script_hits d) ''SCRIPT_INJECTION''))))
         \<and> (\<not> rejectOnViolation (config e) \<longrightarrow>
            (\<exists>r. returned (sanitize e d (Some [''script''])) = Inr r
               \<and> sanitized r = fst (sanitizeValue (purify e) [script_rule] d [] ([], []))
               \<and> violations r \<noteq> [] \<and> length (violations r) = script_hits d
               \<and> list_all (suffix '': SCRIPT_INJECTION'') (violations r)))"
proof -
  let ?res = "sanitizeValue (purify e) [script_rule] d [] ([], [])"
  have "rules_used e (Some [''script'']) = compile_rules e [''script'']"
    by (rule rules_used_single [OF assms(1)]) simp_all
  also have "\<dots> = [script_rule]"
    using assms(2) by (simp add: compile_rules_def List.map_filter_def)
  finally have r: "returned (sanitize e d (Some [''script''])) = respond (config e) ?res"
    by (simp add: returned_sanitize)
  have t: "map type (fst (snd ?res)) = replicate (script_hits d) (Entry SCRIPT_INJECTION)"
    using sanitizeValue_script(1) [of "[script_rule]" "purify e" d "[]" "([], [])"]
    by (simp add: script_hits_def)
  from assms(3) have pos: "0 < script_hits d"
    by (auto simp: script_hits_def list_ex_iff filter_empty_conv)
  from t have len: "length (fst (snd ?res)) = script_hits d"
    by (metis length_map length_replicate)
  with pos have ne: "fst (snd ?res) \<noteq> []"
    by auto
  have ty: "type v = Entry SCRIPT_INJECTION" if "v \<in> set (fst (snd ?res))" for v
  proof -
    from that have "type v \<in> set (map type (fst (snd ?res)))" by simp
    then show ?thesis unfolding t by simp
  qed
  have "map (\<lambda>v. type_text (type v)) (fst (snd ?res))
          = map type_text (map type (fst (snd ?res)))"
    by simp
  also have "\<dots> = replicate (script_hits d) ''SCRIPT_INJECTION''"
    unfolding t by (simp add: script_type_text)
  finally have msg: "map (\<lambda>v. type_text (type v)) (fst (snd ?res))
                       = replicate (script_hits d) ''SCRIPT_INJECTION''" .
  have 1: "returned (sanitize e d (Some [''script'']))
              = Inl (Error (''Sanitization violations detected: ''
                      @ join '', '' (replicate (script_hits d) ''SCRIPT_INJECTION'')))"
    if "strictMode (config e) \<and> rejectOnViolation (config e)"
    using that ne unfolding r respond_def msg by simp
  have 2: "\<exists>r. returned (sanitize e d (Some [''script''])) = Inr r
               \<and> sanitized r = fst ?res
               \<and> violations r \<noteq> [] \<and> length (violations r) = script_hits d
               \<and> list_all (suffix '': SCRIPT_INJECTION'') (violations r)"
    if "\<not> rejectOnViolation (config e)"
    using that ne len ty unfolding r respond_def
    by (simp add: list_all_iff script_type_text suffix_def)
  from 1 2 show ?thesis by blast
qed

text \<open>
  Two engines after a first call, and an object with a script element in a field and another,
  in upper case, in an array.
\<close>

theorem script_element_strict_mode_witness:
  "returned (sanitize (engine_after (sanitize strictEngine (JStr ''x'') (Some [''script'', ''trim''])))
      (JObj [(''name'', JStr ''<script>alert(1)</script>''),
             (''tags'', JArr [JStr ''ok'', JStr ''a<SCRIPT>x</SCRIPT>b''])])
      (Some [''script'']))
     = Inl (Error ''Sanitization violations detected: SCRIPT_INJECTION, SCRIPT_INJECTION'')
   \<and> (\<exists>r. returned (sanitize (engine_after (sanitize mockEngine (JStr ''x'') None))
             (JObj [(''name'', JStr ''<script>alert(1)</script>''),
                    (''tags'', JArr [JStr ''ok'', JStr ''a<SCRIPT>x</SCRIPT>b''])])
             (Some [''script''])) = Inr r
          \<and> sanitized r = JObj [(''name'', JStr []), (''tags'', JArr [JStr ''ok'', JStr ''ab''])]
          \<and> violations r \<noteq> [] \<and> length (violations r) = 2
          \<and> list_all (suffix '': SCRIPT_INJECTION'') (violations r))"
proof -
  let ?d = "JObj [(''name'', JStr ''<script>alert(1)</script>''),
                  (''tags'', JArr [JStr ''ok'', JStr ''a<SCRIPT>x</SCRIPT>b''])]"
  let ?s = "engine_after (sanitize strictEngine (JStr ''x'') (Some [''script'', ''trim'']))"
  let ?m = "engine_after (sanitize mockEngine (JStr ''x'') None)"
  have used: "served (\<lambda>ns. True) ?s" "served (\<lambda>ns. True) ?m"
    unfolding strictEngine_def mockEngine_def
    by (intro served.called served.created, simp)+
  have builtin: "map_of (rulesCache ?s) ''script'' = Some script_rule"
    "map_of (rulesCache ?m) ''script'' = Some script_rule"
    by (simp_all add: strictEngine_def mockEngine_def mockSanitizationConfig_def script_registered)
  have hit: "list_ex (re_test script_re) (strings_of ?d)"
    by code_simp
  have strict: "strictMode (config ?s) \<and> rejectOnViolation (config ?s)"
    by (simp add: strictEngine_def new_SanitizationEngine_def)
  have lenient: "\<not> rejectOnViolation (config ?m)"
    by (simp add: mockEngine_def new_SanitizationEngine_def mockSanitizationConfig_def)
  have n: "script_hits ?d = 2"
    by code_simp
  have msg: "''Sanitization violations detected: '' @ join '', '' (replicate 2 ''SCRIPT_INJECTION'')
               = ''Sanitization violations detected: SCRIPT_INJECTION, SCRIPT_INJECTION''"
    by code_simp
  have p: "purify ?m = mockPurify"
    by (simp add: mockEngine_def new_SanitizationEngine_def)
  have v: "fst (sanitizeValue mockPurify [script_rule] ?d [] ([], []))
             = JObj [(''name'', JStr []), (''tags'', JArr [JStr ''ok'', JStr ''ab''])]"
    by code_simp
  from script_element_strict_mode [OF used(1) builtin(1) hit] strict
  have 1: "returned (sanitize ?s ?d (Some [''script'']))
             = Inl (Error ''Sanitization violations detected: SCRIPT_INJECTION, SCRIPT_INJECTION'')"
    unfolding n msg by blast
  from script_element_strict_mode [OF used(2) builtin(2) hit] lenient
  have 2: "\<exists>r. returned (sanitize ?m ?d (Some [''script''])) = Inr r
          \<and> sanitized r = JObj [(''name'', JStr []), (''tags'', JArr [JStr ''ok'', JStr ''ab''])]
          \<and> violations r \<noteq> [] \<and> length (violations r) = 2
          \<and> list_all (suffix '': SCRIPT_INJECTION'') (violations r)"
    unfolding n p v by blast
  from 1 2 show ?thesis by blast
qed

subsection \<open>Characters, \<open>trim\<close> and the class patterns\<close>









subsection \<open>The rules that only remove code units\<close>











subsection \<open>A second pass over sanitized strings\<close>







subsection \<open>A second pass over sanitized values\<close>











subsection \<open>Two calls in a row\<close>











end
